theory Spec2Isabelle
  imports Complex_Main "HOL-Library.Log_Nat"
begin

section \<open>Errors and Python values\<close>

text \<open>
  Exceptions of the Python source are values.  \<open>ProviderError msg\<close> is an exception
  raised by an external collaborator (embedding provider, vector store), carrying
  \<open>str(e)\<close>.
\<close>

datatype py_error =
    TypeError
  | AttributeError
  | AssertionError string
  | ValueError
  | IndexError
  | ProviderError string

text \<open>
  Truthiness of an optional integer argument: \<open>None\<close> and \<open>0\<close> are falsy, every
  other integer is truthy.
\<close>

fun truthy :: "int option \<Rightarrow> bool" where
  "truthy None = False"
| "truthy (Some k) = (k \<noteq> 0)"

section \<open>Orchestrator: derivation of breadth and final count\<close>

text \<open>
  The \<open>if/elif/elif/else\<close> chain at the head of \<open>RetrieverWithReranker.invoke\<close> and of
  \<open>HybridRetrieverWithReranker.invoke\<close> (the two copies are identical).  The result is
  the pair \<open>(top_k, top_n)\<close> as it stands after the chain.  In the third branch
  \<open>top_k * 2\<close> is evaluated on whatever \<open>top_k\<close> is; on \<open>None\<close> Python raises
  \<open>TypeError\<close>.
\<close>

definition derive_top_k_top_n :: "int option \<Rightarrow> int option \<Rightarrow> py_error + (int \<times> int)" where
  "derive_top_k_top_n top_k top_n =
     (if truthy top_k \<and> \<not> truthy top_n then
        (case top_k of Some k \<Rightarrow> Inr (k * 2, k) | None \<Rightarrow> Inl TypeError)
      else if truthy top_n \<and> \<not> truthy top_k then
        (case top_n of Some n \<Rightarrow> Inr (n * 2, n) | None \<Rightarrow> Inl TypeError)
      else if top_k = top_n then
        (case top_k of Some k \<Rightarrow> Inr (k * 2, k) | None \<Rightarrow> Inl TypeError)
      else Inr (10, 5))"

section \<open>Floating-point numbers\<close>

text \<open>
  Distances and scores are IEEE 754 double-precision numbers: \<open>numpy.float64\<close> in
  the arrays of \<open>cdist\<close>, Python's \<open>float\<close> after \<open>float(...)\<close>, which keeps the
  value.  A finite double is given by the rational number it denotes (the sign of zero
  is not kept); the other values are the two infinities and NaN.
\<close>

datatype pyfloat = Finite rat | PosInf | NegInf | NaN

text \<open>
  Rounding of a rational number to the nearest integer, ties to the even one.
\<close>

definition round_half_even :: "rat \<Rightarrow> int" where
  "round_half_even x =
     (let f = \<lfloor>x\<rfloor>; d = x - of_int f
      in if d < 1 / 2 then f else if 1 / 2 < d then f + 1 else if even f then f else f + 1)"

text \<open>
  Rounding of a rational number to a double, to nearest and ties to even.
  \<open>binary_exponent x\<close> is the \<open>e\<close> with \<open>2 ^ e \<le> x < 2 ^ (e + 1)\<close> for a positive
  \<open>x\<close>.  A double has a significand of 53 bits, so the doubles around \<open>x\<close> are the
  multiples of \<open>2 ^ (e - 52)\<close>; below \<open>2 ^ (- 1022)\<close> they are the multiples of
  \<open>2 ^ (- 1074)\<close>.  A result of magnitude \<open>2 ^ 1024\<close> is an overflow and gives an
  infinity.
\<close>

definition binary_exponent :: "rat \<Rightarrow> int" where
  "binary_exponent x =
     (case quotient_of x of
        (a, b) \<Rightarrow>
          (let k = int (floorlog 2 (nat a)) - int (floorlog 2 (nat b))
           in if power_int 2 k \<le> x then k else k - 1))"

definition round_to_double :: "rat \<Rightarrow> rat" where
  "round_to_double x =
     (if x = 0 then 0
      else (let e = max (binary_exponent \<bar>x\<bar>) (- 1022);
                quantum = power_int 2 (e - 52)
            in of_int (round_half_even (x / quantum)) * quantum))"

definition to_double :: "rat \<Rightarrow> pyfloat" where
  "to_double x =
     (let y = round_to_double x
      in if power_int 2 1024 \<le> y then PosInf
         else if y \<le> - power_int 2 1024 then NegInf
         else Finite y)"

text \<open>
  The comparison \<open>x <= y\<close> of two doubles (false when one of them is NaN), and the
  subtraction \<open>x - y\<close>: the exact difference, rounded to a double.
\<close>

fun float_le :: "pyfloat \<Rightarrow> pyfloat \<Rightarrow> bool" where
  "float_le NaN y = False"
| "float_le x NaN = False"
| "float_le NegInf y = True"
| "float_le x PosInf = True"
| "float_le (Finite a) (Finite b) = (a \<le> b)"
| "float_le PosInf y = False"
| "float_le x NegInf = False"

fun float_sub :: "pyfloat \<Rightarrow> pyfloat \<Rightarrow> pyfloat" where
  "float_sub NaN y = NaN"
| "float_sub x NaN = NaN"
| "float_sub (Finite a) (Finite b) = to_double (a - b)"
| "float_sub PosInf PosInf = NaN"
| "float_sub NegInf NegInf = NaN"
| "float_sub PosInf y = PosInf"
| "float_sub NegInf y = NegInf"
| "float_sub (Finite a) PosInf = NegInf"
| "float_sub (Finite a) NegInf = PosInf"

text \<open>
  \<open>round(x, 4)\<close> on a Python float: the exact value of \<open>x\<close> is rounded to the nearest
  multiple of \<open>10\<^sup>-\<^sup>4\<close>, ties to the even multiple, and the result is the double
  nearest to that decimal number.  An infinity and NaN are returned as they are.
\<close>

fun py_round4 :: "pyfloat \<Rightarrow> pyfloat" where
  "py_round4 (Finite x) = to_double (of_int (round_half_even (x * 10000)) / 10000)"
| "py_round4 PosInf = PosInf"
| "py_round4 NegInf = NegInf"
| "py_round4 NaN = NaN"

text \<open>A sequence of doubles that never increases.\<close>

definition non_increasing :: "pyfloat list \<Rightarrow> bool" where
  "non_increasing xs = sorted_wrt (\<lambda>a b. float_le b a) xs"

section \<open>Documents, chunks and search results\<close>

text \<open>
  The chunk record written by \<open>chunk_dataset\<close>: the fields of the source document
  other than \<open>content\<close> (\<open>file_type\<close> and the metadata passed through), and the
  fields the chunker adds.  A search result is a chunk with a \<open>score\<close>.
\<close>

record document =
  doc_content :: string
  doc_file_type :: string
  doc_metadata :: "(string \<times> string) list"

record chunk_doc =
  c_file_type :: string
  c_metadata :: "(string \<times> string) list"
  chunk :: string
  c_text :: string
  chunk_id :: string
  doc_id :: string
  chunk_number :: nat

record search_result = chunk_doc +
  score :: pyfloat

definition with_score :: "pyfloat \<Rightarrow> chunk_doc \<Rightarrow> search_result" where
  "with_score s d = chunk_doc.extend d \<lparr>score = s\<rparr>"

section \<open>Slices\<close>

text \<open>The slice \<open>xs[:k]\<close>: a negative \<open>k\<close> drops \<open>-k\<close> elements from the end.\<close>

definition py_slice_to :: "int \<Rightarrow> 'a list \<Rightarrow> 'a list" where
  "py_slice_to k xs =
     (if 0 \<le> k then take (nat k) xs else take (length xs - nat (- k)) xs)"

section \<open>TF-IDF and BM25 backends\<close>

text \<open>
  External libraries are parameters.  For the TF-IDF and the dense backend:
  \<open>cdist\<close> gives the row of cosine distances between the query and every indexed
  vector (\<open>cdist(query_vec, index, metric="cosine")[0]\<close>, for TF-IDF after
  \<open>vectorizer.transform\<close>), and \<open>argsort\<close> is \<open>numpy.ndarray.argsort\<close> with its
  default sort kind.  For BM25, \<open>retrieve\<close> is \<open>bm25s.tokenize\<close> followed by
  \<open>BM25.retrieve\<close>: the documents and their scores, column by column.
\<close>

record 'ix tfidf_engine =
  tfidf_index :: "'ix option"
  tfidf_data :: "chunk_doc list option"

definition tfidf_init :: "'ix tfidf_engine" where
  "tfidf_init = \<lparr>tfidf_index = None, tfidf_data = None\<rparr>"

definition tfidf_fit :: "(string list \<Rightarrow> 'ix) \<Rightarrow> chunk_doc list \<Rightarrow> 'ix tfidf_engine" where
  "tfidf_fit fit_transform data =
     \<lparr>tfidf_index = Some (fit_transform (map c_text data)), tfidf_data = Some data\<rparr>"

text \<open>
  The loop \<open>for idx in top_k_indices\<close> of the TF-IDF and of the dense search:
  \<open>{"score": round(float(1 - cosine_distances[idx]), 4), **self._data[idx]}\<close>.
  \<open>1 - cosine_distances[idx]\<close> is a subtraction of doubles.  Subscripting \<open>None\<close>
  raises \<open>TypeError\<close>, an index out of range \<open>IndexError\<close>.
\<close>

fun collect_scored ::
  "pyfloat list \<Rightarrow> chunk_doc list option \<Rightarrow> nat list \<Rightarrow> py_error + search_result list" where
  "collect_scored ds data [] = Inr []"
| "collect_scored ds data (idx # rest) =
     (if length ds \<le> idx then Inl IndexError
      else (case data of
              None \<Rightarrow> Inl TypeError
            | Some docs \<Rightarrow>
                if length docs \<le> idx then Inl IndexError
                else (case collect_scored ds data rest of
                        Inl e \<Rightarrow> Inl e
                      | Inr out \<Rightarrow>
                          Inr (with_score (py_round4 (float_sub (Finite 1) (ds ! idx))) (docs ! idx) # out))))"

definition tfidf_search ::
  "(string \<Rightarrow> 'ix \<Rightarrow> pyfloat list) \<Rightarrow> (pyfloat list \<Rightarrow> nat list) \<Rightarrow> 'ix tfidf_engine \<Rightarrow>
     string \<Rightarrow> int \<Rightarrow> py_error + search_result list" where
  "tfidf_search cdist argsort eng query top_k =
     (case tfidf_index eng of
        None \<Rightarrow> Inl (AssertionError ''Index is not set'')
      | Some index \<Rightarrow>
          (case tfidf_data eng of
             None \<Rightarrow> Inl (AssertionError ''Data is not set'')
           | Some data \<Rightarrow>
               (let cosine_distances = cdist query index;
                    top_k_indices = py_slice_to top_k (argsort cosine_distances)
                in collect_scored cosine_distances (Some data) top_k_indices)))"

text \<open>
  \<open>BM25SearchEngine.__init__\<close> sets \<open>_index = bm25s.BM25()\<close>, so the index is never
  \<open>None\<close> and the first assertion of \<open>search\<close> always passes; only \<open>_data\<close> is
  optional.
\<close>

record bm25_engine =
  bm25_data :: "chunk_doc list option"

definition bm25_init :: bm25_engine where
  "bm25_init = \<lparr>bm25_data = None\<rparr>"

definition bm25_fit :: "chunk_doc list \<Rightarrow> bm25_engine" where
  "bm25_fit data = \<lparr>bm25_data = Some data\<rparr>"

definition bm25_search ::
  "(string \<Rightarrow> chunk_doc list \<Rightarrow> int \<Rightarrow> (chunk_doc \<times> pyfloat) list) \<Rightarrow> bm25_engine \<Rightarrow>
     string \<Rightarrow> int \<Rightarrow> py_error + search_result list" where
  "bm25_search retrieve eng query top_k =
     (case bm25_data eng of
        None \<Rightarrow> Inl (AssertionError ''Data is not set'')
      | Some data \<Rightarrow>
          Inr (map (\<lambda>(doc, s). with_score (py_round4 s) doc) (retrieve query data top_k)))"

section \<open>Batch embedding\<close>

text \<open>
  The embedding provider \<open>pc.inference.embed\<close> is an external service.  Its answer
  may depend on how many calls were made before (a rate limit is transient), so the
  provider is a function of the number of earlier calls, the \<open>input_type\<close> and the
  batch; it either raises an exception with message \<open>msg\<close> (\<open>Inl msg\<close>) or returns
  one embedding per input.  The state records the calls made and the sleeps, in
  milliseconds.
\<close>

datatype event = Embed "string list" | Sleep nat

record embed_state =
  calls :: nat
  trace :: "event list"

type_synonym 'v provider = "nat \<Rightarrow> string \<Rightarrow> string list \<Rightarrow> string + 'v list"

text \<open>
  \<open>"rate limit exceeded" in str(e).lower()\<close>, on byte strings: \<open>lower\<close> maps the
  ASCII capitals to small letters.
\<close>

definition lower_char :: "char \<Rightarrow> char" where
  "lower_char c =
     (let n = (of_char c :: nat) in if 65 \<le> n \<and> n \<le> 90 then char_of (n + 32) else c)"

definition lower :: "string \<Rightarrow> string" where
  "lower s = map lower_char s"

fun startswith :: "string \<Rightarrow> string \<Rightarrow> bool" where
  "startswith s [] = True"
| "startswith [] (p # ps) = False"
| "startswith (c # cs) (p # ps) = (c = p \<and> startswith cs ps)"

fun contains :: "string \<Rightarrow> string \<Rightarrow> bool" where
  "contains [] sub = (sub = [])"
| "contains (c # cs) sub = (startswith (c # cs) sub \<or> contains cs sub)"

definition is_rate_limit :: "string \<Rightarrow> bool" where
  "is_rate_limit msg = contains (lower msg) ''rate limit exceeded''"

text \<open>\<open>range(0, n, step)\<close> for a positive step.\<close>

definition py_range_step :: "nat \<Rightarrow> nat \<Rightarrow> nat list" where
  "py_range_step n step = map (\<lambda>j. j * step) [0..<(n + step - 1) div step]"

text \<open>
  \<open>np.stack\<close> raises \<open>ValueError\<close> on an empty list of arrays.  The embeddings of
  one model have one length, so its check of equal shapes is left out.
\<close>

definition np_stack :: "'v list \<Rightarrow> py_error + 'v list" where
  "np_stack arrays = (if arrays = [] then Inl ValueError else Inr arrays)"

text \<open>
  The body of \<open>for i in range(0, len(docs), batch_size)\<close>, over the values the range
  still has to yield.  In the rate-limit branch the source sleeps 60 seconds, executes
  \<open>i -= batch_size\<close> and \<open>continue\<close>: the assignment rebinds the local \<open>i\<close> only, the
  \<open>for\<close> statement takes its next value from the range iterator, so the loop goes on
  with the rest of the range.
\<close>

fun batch_loop ::
  "'v provider \<Rightarrow> string \<Rightarrow> string list \<Rightarrow> nat \<Rightarrow> nat list \<Rightarrow> 'v list \<Rightarrow> embed_state \<Rightarrow>
     (py_error + 'v list) \<times> embed_state" where
  "batch_loop pc input_type docs batch_size [] all_embeddings st = (Inr all_embeddings, st)"
| "batch_loop pc input_type docs batch_size (i # rest) all_embeddings st =
     (let batch = take batch_size (drop i docs);
          st1 = st\<lparr>calls := calls st + 1, trace := trace st @ [Embed batch]\<rparr>
      in case pc (calls st) input_type batch of
           Inr embeddings \<Rightarrow>
             batch_loop pc input_type docs batch_size rest (all_embeddings @ embeddings)
               (st1\<lparr>trace := trace st1 @ [Sleep 500]\<rparr>)
         | Inl msg \<Rightarrow>
             if is_rate_limit msg then
               batch_loop pc input_type docs batch_size rest all_embeddings
                 (st1\<lparr>trace := trace st1 @ [Sleep 60000]\<rparr>)
             else (Inl (ProviderError msg), st1))"

definition batch_embed ::
  "'v provider \<Rightarrow> string list \<Rightarrow> string \<Rightarrow> nat \<Rightarrow> embed_state \<Rightarrow>
     (py_error + 'v list) \<times> embed_state" where
  "batch_embed pc docs input_type batch_size st =
     (if batch_size = 0 then (Inl ValueError, st)
      else (case batch_loop pc input_type docs batch_size
                   (py_range_step (length docs) batch_size) [] st of
              (Inl e, st') \<Rightarrow> (Inl e, st')
            | (Inr all_embeddings, st') \<Rightarrow> (np_stack all_embeddings, st')))"

section \<open>Dense and vector-store backends\<close>

record 'v dense_engine =
  dense_index :: "'v list option"
  dense_data :: "chunk_doc list option"

definition dense_init :: "'v dense_engine" where
  "dense_init = \<lparr>dense_index = None, dense_data = None\<rparr>"

text \<open>
  \<open>fit\<close> stores the data, then embeds; when the embedding raises, the data is set and
  the index is not.  The first component is the exception, if any.
\<close>

definition dense_fit ::
  "'v provider \<Rightarrow> 'v dense_engine \<Rightarrow> chunk_doc list \<Rightarrow> embed_state \<Rightarrow>
     py_error option \<times> 'v dense_engine \<times> embed_state" where
  "dense_fit pc eng data st =
     (let eng1 = eng\<lparr>dense_data := Some data\<rparr>
      in case batch_embed pc (map c_text data) ''passage'' 25 st of
           (Inl e, st') \<Rightarrow> (Some e, eng1, st')
         | (Inr embeddings, st') \<Rightarrow> (None, eng1\<lparr>dense_index := Some embeddings\<rparr>, st'))"

text \<open>
  \<open>DenseSearchEngine.search\<close> has no assertion: its second statement reads
  \<open>self._index.shape\<close>, which raises \<open>AttributeError\<close> on \<open>None\<close>; \<open>self._data[idx]\<close>
  raises \<open>TypeError\<close> on \<open>None\<close>.
\<close>

definition dense_search ::
  "'v provider \<Rightarrow> ('v \<Rightarrow> 'v list \<Rightarrow> pyfloat list) \<Rightarrow> (pyfloat list \<Rightarrow> nat list) \<Rightarrow> 'v dense_engine \<Rightarrow>
     string \<Rightarrow> int \<Rightarrow> embed_state \<Rightarrow> (py_error + search_result list) \<times> embed_state" where
  "dense_search pc cdist argsort eng query top_k st =
     (case dense_index eng of
        None \<Rightarrow> (Inl AttributeError, st)
      | Some index \<Rightarrow>
          (case batch_embed pc [query] ''query'' 25 st of
             (Inl e, st') \<Rightarrow> (Inl e, st')
           | (Inr query_embedding, st') \<Rightarrow>
               (case query_embedding of
                  [] \<Rightarrow> (Inl IndexError, st')
                | q # _ \<Rightarrow>
                    (let cosine_distances = cdist q index;
                         top_k_indices = py_slice_to top_k (argsort cosine_distances)
                     in (collect_scored cosine_distances (dense_data eng) top_k_indices,
                         st')))))"

text \<open>
  The vector store: \<open>_index\<close> is the handle of the remote index, \<open>None\<close> until \<open>fit\<close>
  or \<open>load\<close> (\<open>fit\<close> sets the same handle and upserts the embedded corpus into the
  remote service).  \<open>search\<close> embeds the query first and reads \<open>self._index.query\<close>
  afterwards.  \<open>vs_query\<close> is the remote query: the matches' metadata and scores.
\<close>

record 'h vector_store_engine =
  vs_index :: "'h option"

definition vs_init :: "'h vector_store_engine" where
  "vs_init = \<lparr>vs_index = None\<rparr>"

definition vs_load :: "'h \<Rightarrow> 'h vector_store_engine \<Rightarrow> 'h vector_store_engine" where
  "vs_load handle eng = eng\<lparr>vs_index := Some handle\<rparr>"

definition vs_search ::
  "'v provider \<Rightarrow> ('h \<Rightarrow> 'v \<Rightarrow> int \<Rightarrow> 'f option \<Rightarrow> (chunk_doc \<times> pyfloat) list) \<Rightarrow>
     'h vector_store_engine \<Rightarrow> string \<Rightarrow> int \<Rightarrow> 'f option \<Rightarrow> embed_state \<Rightarrow>
     (py_error + search_result list) \<times> embed_state" where
  "vs_search pc vs_query eng query top_k filters st =
     (case batch_embed pc [query] ''query'' 25 st of
        (Inl e, st') \<Rightarrow> (Inl e, st')
      | (Inr query_embedding, st') \<Rightarrow>
          (case vs_index eng of
             None \<Rightarrow> (Inl AttributeError, st')
           | Some index \<Rightarrow>
               (case query_embedding of
                  [] \<Rightarrow> (Inl IndexError, st')
                | q # _ \<Rightarrow>
                    (Inr (map (\<lambda>(md, s). with_score (py_round4 s) md)
                            (vs_query index q top_k filters)), st'))))"

section \<open>Orchestrator\<close>

text \<open>
  The search engines and the reranker are the orchestrator's collaborators:
  \<open>search query top_k\<close> and \<open>rerank query documents top_n\<close>.
\<close>

type_synonym search_engine = "string \<Rightarrow> int \<Rightarrow> py_error + search_result list"
type_synonym reranker = "string \<Rightarrow> search_result list \<Rightarrow> int \<Rightarrow> py_error + search_result list"

definition retriever_with_reranker_invoke ::
  "search_engine \<Rightarrow> reranker \<Rightarrow> string \<Rightarrow> int option \<Rightarrow> int option \<Rightarrow>
     py_error + search_result list" where
  "retriever_with_reranker_invoke search rerank query top_k top_n =
     (case derive_top_k_top_n top_k top_n of
        Inl e \<Rightarrow> Inl e
      | Inr (k, n) \<Rightarrow>
          (case search query k of
             Inl e \<Rightarrow> Inl e
           | Inr retrievals \<Rightarrow> rerank query retrievals n))"

text \<open>
  A Python \<open>dict\<close> keeps its keys in the order of their first insertion; assigning to a
  key that is present replaces the value where it stands.
\<close>

fun dict_set :: "'k \<Rightarrow> 'a \<Rightarrow> ('k \<times> 'a) list \<Rightarrow> ('k \<times> 'a) list" where
  "dict_set k v [] = [(k, v)]"
| "dict_set k v ((k', v') # d) = (if k' = k then (k, v) # d else (k', v') # dict_set k v d)"

fun dedupe_loop :: "search_result list \<Rightarrow> (string \<times> search_result) list \<Rightarrow> (string \<times> search_result) list" where
  "dedupe_loop [] deduped = deduped"
| "dedupe_loop (doc # rest) deduped = dedupe_loop rest (dict_set (chunk_id doc) doc deduped)"

definition dedupe :: "search_result list \<Rightarrow> search_result list" where
  "dedupe retrievals = map snd (dedupe_loop retrievals [])"

definition hybrid_invoke ::
  "search_engine \<Rightarrow> search_engine \<Rightarrow> reranker \<Rightarrow> string \<Rightarrow> int option \<Rightarrow> int option \<Rightarrow>
     py_error + search_result list" where
  "hybrid_invoke sparse_search dense_search' rerank query top_k top_n =
     (case derive_top_k_top_n top_k top_n of
        Inl e \<Rightarrow> Inl e
      | Inr (k, n) \<Rightarrow>
          (case sparse_search query k of
             Inl e \<Rightarrow> Inl e
           | Inr sparse_retrievals \<Rightarrow>
               (case dense_search' query k of
                  Inl e \<Rightarrow> Inl e
                | Inr dense_retrievals \<Rightarrow>
                    rerank query (dedupe (sparse_retrievals @ dense_retrievals)) n)))"

section \<open>Token packer\<close>

text \<open>
  \<open>chunk_simple\<close> of \<open>utils.py\<close>.  The sentence splitter (\<open>nltk.sent_tokenize\<close>) and
  the tokenizer (\<open>tokenize_text\<close>: \<open>litellm.encode\<close>, then \<open>decode\<close> token by token)
  are external and are parameters.  \<open>current_chunk\<close> is a list of tokens;
  \<open>if ... and current_chunk\<close> tests that the list is not empty.
\<close>

fun chunk_simple_loop ::
  "(string \<Rightarrow> string list) \<Rightarrow> int \<Rightarrow> string list \<Rightarrow> string list \<Rightarrow> string list \<Rightarrow> int \<Rightarrow>
     string list \<times> string list" where
  "chunk_simple_loop tokenize chunk_size [] chunks current_chunk current_length =
     (chunks, current_chunk)"
| "chunk_simple_loop tokenize chunk_size (sentence # rest) chunks current_chunk current_length =
     (let words = tokenize sentence
      in if current_length + int (length words) > chunk_size \<and> current_chunk \<noteq> [] then
           chunk_simple_loop tokenize chunk_size rest (chunks @ [concat current_chunk])
             ([] @ words) (0 + int (length words))
         else
           chunk_simple_loop tokenize chunk_size rest chunks
             (current_chunk @ words) (current_length + int (length words)))"

definition chunk_simple ::
  "(string \<Rightarrow> string list) \<Rightarrow> (string \<Rightarrow> string list) \<Rightarrow> string \<Rightarrow> int \<Rightarrow> string list" where
  "chunk_simple sent_tokenize tokenize content chunk_size =
     (case chunk_simple_loop tokenize chunk_size (sent_tokenize content) [] [] 0 of
        (chunks, current_chunk) \<Rightarrow>
          if current_chunk \<noteq> [] then chunks @ [concat current_chunk] else chunks)"

text \<open>
  For a group of consecutive sentences: its tokens, the chunk text they give, and the
  budget condition of the packer (the tokens fit, or the group is one sentence).
\<close>

definition group_tokens :: "(string \<Rightarrow> string list) \<Rightarrow> string list \<Rightarrow> string list" where
  "group_tokens tokenize g = concat (map tokenize g)"



section \<open>Python strings\<close>

text \<open>
  Strings are byte strings and the model is about ASCII text.  \<open>is_space\<close> is
  \<open>str.isspace\<close> (and \<open>\s\<close> of \<open>re\<close>) on ASCII: tab, line feed, vertical tab, form
  feed, carriage return, the four separators \<open>0x1c\<close> to \<open>0x1f\<close> and the space.
  \<open>is_line_boundary\<close> are the ASCII characters at which \<open>str.splitlines\<close> splits.
\<close>

definition is_space :: "char \<Rightarrow> bool" where
  "is_space c = (let n = (of_char c :: nat) in (9 \<le> n \<and> n \<le> 13) \<or> (28 \<le> n \<and> n \<le> 32))"

definition is_digit :: "char \<Rightarrow> bool" where
  "is_digit c = (let n = (of_char c :: nat) in 48 \<le> n \<and> n \<le> 57)"

definition is_line_boundary :: "char \<Rightarrow> bool" where
  "is_line_boundary c =
     (let n = (of_char c :: nat) in (10 \<le> n \<and> n \<le> 13) \<or> (28 \<le> n \<and> n \<le> 30))"

definition upper_char :: "char \<Rightarrow> char" where
  "upper_char c =
     (let n = (of_char c :: nat) in if 97 \<le> n \<and> n \<le> 122 then char_of (n - 32) else c)"

definition upper :: "string \<Rightarrow> string" where
  "upper s = map upper_char s"

definition strip :: "string \<Rightarrow> string" where
  "strip s = rev (dropWhile is_space (rev (dropWhile is_space s)))"

text \<open>
  \<open>s.splitlines()\<close>: the lines without their line ends; \<open>\r\n\<close> is one line end, and
  a last line without characters is not a line.  The second argument is the line read
  so far.
\<close>

fun splitlines_from :: "string \<Rightarrow> string \<Rightarrow> string list" where
  "splitlines_from [] line = (if line = [] then [] else [line])"
| "splitlines_from (c # cs) line =
     (if c = CHR 0x0D \<and> cs \<noteq> [] \<and> hd cs = CHR 0x0A then line # splitlines_from (tl cs) []
      else if is_line_boundary c then line # splitlines_from cs []
      else splitlines_from cs (line @ [c]))"

definition splitlines :: "string \<Rightarrow> string list" where
  "splitlines s = splitlines_from s []"

text \<open>\<open>s.split("\n")\<close> and \<open>sep.join(parts)\<close>.\<close>

fun split_newline_from :: "string \<Rightarrow> string \<Rightarrow> string list" where
  "split_newline_from [] part = [part]"
| "split_newline_from (c # cs) part =
     (if c = CHR 0x0A then part # split_newline_from cs [] else split_newline_from cs (part @ [c]))"

definition split_newline :: "string \<Rightarrow> string list" where
  "split_newline s = split_newline_from s []"

fun join :: "string \<Rightarrow> string list \<Rightarrow> string" where
  "join sep [] = []"
| "join sep [x] = x"
| "join sep (x # y # ys) = x @ sep @ join sep (y # ys)"


section \<open>Syntax trees and external collaborators\<close>

text \<open>
  A node of a tree-sitter syntax tree: the field name it has in its parent (empty when
  it has none), its type, its source text and its children.
\<close>

datatype node = Node (node_field: string) (node_type: string) (node_text: string)
  (node_children: "node list")

definition child_by_field_name :: "node \<Rightarrow> string \<Rightarrow> node option" where
  "child_by_field_name node name = find (\<lambda>child. node_field child = name) (node_children node)"

text \<open>
  What the chunking code calls and does not define: \<open>hashlib.md5(...).hexdigest()\<close>,
  \<open>nltk.sent_tokenize\<close>, the tokenizer, the tree-sitter parsers, the conversion of a
  notebook to markdown (\<open>read_notebook\<close>, \<open>markdown.markdown\<close> and \<open>mdify\<close>) and
  \<open>convert_contents_to_text\<close> (regular expressions and HTML libraries; it fills the
  \<open>text\<close> field only).  \<open>ext_set_iteration\<close> is the order in which the interpreter
  iterates over a \<open>set\<close> of strings: a permutation of the elements that depends on
  their hash values, which CPython draws anew for every process unless
  \<open>PYTHONHASHSEED\<close> is fixed.
\<close>

record externals =
  ext_md5 :: "string \<Rightarrow> string"
  ext_sent_tokenize :: "string \<Rightarrow> string list"
  ext_tokenize_text :: "string \<Rightarrow> string list"
  ext_parse_python :: "string \<Rightarrow> node"
  ext_parse_markdown :: "string \<Rightarrow> node"
  ext_notebook_to_markdown :: "string \<Rightarrow> string"
  ext_convert_contents_to_text :: "string \<Rightarrow> string \<Rightarrow> string"
  ext_set_iteration :: "string list \<Rightarrow> string list"

definition make_id :: "externals \<Rightarrow> string \<Rightarrow> string" where
  "make_id ext s = ext_md5 ext s"

text \<open>
  A Python \<open>set\<close> of strings is kept as the list of its elements, without
  repetition; it is read through \<open>ext_set_iteration\<close> only.
\<close>

definition set_add :: "string \<Rightarrow> string list \<Rightarrow> string list" where
  "set_add x s = (if x \<in> set s then s else s @ [x])"

definition set_of_list :: "string list \<Rightarrow> string list" where
  "set_of_list xs = foldl (\<lambda>s x. set_add x s) [] xs"

section \<open>Code chunker\<close>

text \<open>
  \<open>collect_identifiers\<close> and \<open>collect_identifiers_from_type_annotations\<close> add to the
  set they are given.
\<close>

function collect_identifiers :: "node \<Rightarrow> string list \<Rightarrow> string list" where
  "collect_identifiers (Node fld kind src cs) identifiers =
     (if kind = ''identifier'' then set_add src identifiers
      else if kind = ''function_definition'' \<or> kind = ''class_definition'' then
        (let identifiers1 =
               (case child_by_field_name (Node fld kind src cs) ''parameters'' of
                  Some parameters \<Rightarrow> collect_identifiers parameters identifiers
                | None \<Rightarrow> identifiers)
         in (case child_by_field_name (Node fld kind src cs) ''return_type'' of
               Some return_type \<Rightarrow> collect_identifiers return_type identifiers1
             | None \<Rightarrow> identifiers1))
      else foldl (\<lambda>acc child. collect_identifiers child acc) identifiers cs)"
  by pat_completeness auto
termination
proof (relation "measure (\<lambda>(node, identifiers). size node)")
  show "wf (measure (\<lambda>(node, identifiers). size node))" by simp
next
  fix fld kind src cs and identifiers :: "string list" and x2
  assume "child_by_field_name (Node fld kind src cs) ''parameters'' = Some x2"
  then have "x2 \<in> set cs"
    by (auto simp: child_by_field_name_def find_Some_iff)
  then show "((x2, identifiers), Node fld kind src cs, identifiers)
               \<in> measure (\<lambda>(node, identifiers). size node)"
    by (auto simp: less_Suc_eq_le size_list_estimation')
next
  fix fld kind src cs and identifiers :: "string list" and x xa x2
  assume "child_by_field_name (Node fld kind src cs) ''return_type'' = Some x2"
  then have "x2 \<in> set cs"
    by (auto simp: child_by_field_name_def find_Some_iff)
  then show "((x2, xa), Node fld kind src cs, identifiers)
               \<in> measure (\<lambda>(node, identifiers). size node)"
    by (auto simp: less_Suc_eq_le size_list_estimation')
next
  fix fld kind src and cs :: "node list" and identifiers :: "string list" and x
  assume "x \<in> set cs"
  then show "\<And>y. ((x, y), Node fld kind src cs, identifiers)
               \<in> measure (\<lambda>(node, identifiers). size node)"
    by (auto simp: less_Suc_eq_le size_list_estimation')
qed

fun collect_identifiers_from_type_annotations :: "node \<Rightarrow> string list \<Rightarrow> string list" where
  "collect_identifiers_from_type_annotations (Node fld kind src cs) identifiers =
     (if kind = ''type'' \<or> kind = ''type_identifier'' \<or> kind = ''identifier'' then
        set_add src identifiers
      else foldl (\<lambda>acc child. collect_identifiers_from_type_annotations child acc) identifiers cs)"

definition collect_imports :: "node \<Rightarrow> node list" where
  "collect_imports node =
     filter (\<lambda>child. node_type child = ''import_statement'' \<or>
                     node_type child = ''import_from_statement'') (node_children node)"

text \<open>
  \<open>build_import_map\<close>: the inner loop over the children of one import statement, and
  the loop over the statements.  \<open>child.children[2]\<close> raises \<open>IndexError\<close> when the
  alias has fewer than three children.
\<close>

fun import_names ::
  "string \<Rightarrow> node list \<Rightarrow> (string \<times> string) list \<Rightarrow> py_error + (string \<times> string) list" where
  "import_names imp_text [] import_map = Inr import_map"
| "import_names imp_text (child # rest) import_map =
     (if node_type child = ''dotted_name'' then
        import_names imp_text rest (dict_set (node_text child) imp_text import_map)
      else if node_type child = ''aliased_import'' then
        (if length (node_children child) \<le> 2 then Inl IndexError
         else import_names imp_text rest
                (dict_set (node_text (node_children child ! 2)) imp_text import_map))
      else import_names imp_text rest import_map)"

fun build_import_map_loop ::
  "node list \<Rightarrow> (string \<times> string) list \<Rightarrow> py_error + (string \<times> string) list" where
  "build_import_map_loop [] import_map = Inr import_map"
| "build_import_map_loop (imp # rest) import_map =
     (if node_type imp = ''import_from_statement'' then
        (case import_names (node_text imp) (drop 3 (node_children imp)) import_map of
           Inl e \<Rightarrow> Inl e
         | Inr import_map1 \<Rightarrow> build_import_map_loop rest import_map1)
      else if node_type imp = ''import_statement'' then
        (case import_names (node_text imp) (node_children imp) import_map of
           Inl e \<Rightarrow> Inl e
         | Inr import_map1 \<Rightarrow> build_import_map_loop rest import_map1)
      else build_import_map_loop rest import_map)"

definition build_import_map :: "node list \<Rightarrow> py_error + (string \<times> string) list" where
  "build_import_map import_nodes = build_import_map_loop import_nodes []"

fun collect_module_variables_loop :: "node list \<Rightarrow> string list \<Rightarrow> py_error + string list" where
  "collect_module_variables_loop [] module_variables = Inr module_variables"
| "collect_module_variables_loop (child # rest) module_variables =
     (if node_type child = ''expression_statement'' then
        (case node_children child of
           [] \<Rightarrow> Inl IndexError
         | assignment # _ \<Rightarrow>
             if node_type assignment = ''assignment'' then
               (case child_by_field_name assignment ''left'' of
                  None \<Rightarrow> collect_module_variables_loop rest module_variables
                | Some target \<Rightarrow>
                    if node_type target = ''identifier'' then
                      collect_module_variables_loop rest (module_variables @ [node_text target])
                    else collect_module_variables_loop rest module_variables)
             else collect_module_variables_loop rest module_variables)
      else collect_module_variables_loop rest module_variables)"

definition collect_module_variables :: "node \<Rightarrow> py_error + string list" where
  "collect_module_variables node = collect_module_variables_loop (node_children node) []"

text \<open>
  The \<open>context\<close> argument of the \<open>process_\<close> functions is a dictionary with the
  optional keys \<open>parent_class\<close> and \<open>parent_function\<close>; the context of a chunk may have
  the keys \<open>imports\<close> and \<open>module_variables\<close> as well, and is \<open>None\<close> when it has no
  key.
\<close>

record scope =
  scope_parent_class :: "string option"
  scope_parent_function :: "string option"

record chunk_context =
  ctx_imports :: "string list option"
  ctx_module_variables :: "string list option"
  ctx_parent_class :: "string option"
  ctx_parent_function :: "string option"

record code_chunk =
  chunk_type :: string
  chunk_name :: string
  chunk_definition :: string
  chunk_ctx :: "chunk_context option"

text \<open>
  The part that \<open>process_decorated_definition\<close>, \<open>process_function\<close> and
  \<open>process_class\<close> repeat: the loop \<open>for ident in identifiers\<close> over the set, which
  fills \<open>used_imports\<close> and \<open>used_module_vars\<close>, and the dictionary built from them,
  with \<open>list(set(used_imports))\<close> for the imports.
\<close>

definition build_context ::
  "externals \<Rightarrow> string list \<Rightarrow> (string \<times> string) list \<Rightarrow> string list \<Rightarrow>
     string option \<Rightarrow> string option \<Rightarrow> chunk_context option" where
  "build_context ext identifiers import_map module_variables parent_class parent_function =
     (let order = ext_set_iteration ext identifiers;
          used_imports = List.map_filter (map_of import_map) order;
          used_module_vars = filter (\<lambda>ident. ident \<in> set module_variables) order;
          func_context =
            \<lparr>ctx_imports =
               (if used_imports \<noteq> [] then Some (ext_set_iteration ext (set_of_list used_imports))
                else None),
             ctx_module_variables = (if used_module_vars \<noteq> [] then Some used_module_vars else None),
             ctx_parent_class = parent_class,
             ctx_parent_function = parent_function\<rparr>
      in if func_context =
              \<lparr>ctx_imports = None, ctx_module_variables = None, ctx_parent_class = None,
               ctx_parent_function = None\<rparr>
         then None else Some func_context)"

definition process_decorated_definition ::
  "externals \<Rightarrow> node \<Rightarrow> scope \<Rightarrow> (string \<times> string) list \<Rightarrow> string list \<Rightarrow>
     py_error + code_chunk list" where
  "process_decorated_definition ext node context' import_map module_variables =
     (let identifiers = collect_identifiers node []
      in case find (\<lambda>child. node_type child = ''function_definition'' \<or>
                            node_type child = ''class_definition'') (node_children node) of
           None \<Rightarrow> Inr []
         | Some func_def \<Rightarrow>
             (case child_by_field_name func_def ''name'' of
                None \<Rightarrow> Inl AttributeError
              | Some func_name_node \<Rightarrow>
                  Inr [\<lparr>chunk_type =
                          (if scope_parent_class context' \<noteq> None \<and>
                              node_type func_def = ''function_definition'' then ''method''
                           else if node_type func_def = ''function_definition'' then ''function''
                           else ''class''),
                        chunk_name = node_text func_name_node,
                        chunk_definition = node_text node,
                        chunk_ctx =
                          build_context ext identifiers import_map module_variables
                            (scope_parent_class context') (scope_parent_function context')\<rparr>]))"

text \<open>
  \<open>process_function\<close>, with the loop over the children of the function body as a
  second function.  \<open>func_name_node.text\<close> and \<open>node.type\<close> raise \<open>AttributeError\<close>
  when the name or the body is missing.
\<close>

function process_function ::
    "externals \<Rightarrow> node \<Rightarrow> scope \<Rightarrow> (string \<times> string) list \<Rightarrow> string list \<Rightarrow>
       py_error + code_chunk list"
  and process_nested ::
    "externals \<Rightarrow> node list \<Rightarrow> string \<Rightarrow> scope \<Rightarrow> (string \<times> string) list \<Rightarrow> string list \<Rightarrow>
       py_error + code_chunk list" where
  "process_function ext (Node fld kind src cs) context' import_map module_variables =
     (case child_by_field_name (Node fld kind src cs) ''name'' of
        None \<Rightarrow> Inl AttributeError
      | Some func_name_node \<Rightarrow>
          (case child_by_field_name (Node fld kind src cs) ''body'' of
             None \<Rightarrow> Inl AttributeError
           | Some func_body \<Rightarrow>
               (let func_name = node_text func_name_node;
                    func_code = src;
                    identifiers = collect_identifiers func_body [];
                    identifiers1 =
                      (case child_by_field_name (Node fld kind src cs) ''parameters'' of
                         Some parameters \<Rightarrow>
                           collect_identifiers_from_type_annotations parameters identifiers
                       | None \<Rightarrow> identifiers);
                    identifiers2 =
                      (case child_by_field_name (Node fld kind src cs) ''return_type'' of
                         Some return_type \<Rightarrow>
                           collect_identifiers_from_type_annotations return_type identifiers1
                       | None \<Rightarrow> identifiers1);
                    result =
                      \<lparr>chunk_type =
                         (if scope_parent_class context' \<noteq> None then ''method'' else ''function''),
                       chunk_name = func_name,
                       chunk_definition = func_code,
                       chunk_ctx =
                         build_context ext identifiers2 import_map module_variables
                           (scope_parent_class context') (scope_parent_function context')\<rparr>
                in case process_nested ext (node_children func_body) func_name context'
                          import_map module_variables of
                     Inl e \<Rightarrow> Inl e
                   | Inr nested \<Rightarrow> Inr (result # nested))))"
| "process_nested ext [] func_name context' import_map module_variables = Inr []"
| "process_nested ext (child # rest) func_name context' import_map module_variables =
     (if node_type child = ''function_definition'' then
        (case process_function ext child (context'\<lparr>scope_parent_function := Some func_name\<rparr>)
                import_map module_variables of
           Inl e \<Rightarrow> Inl e
         | Inr found \<Rightarrow>
             (case process_nested ext rest func_name context' import_map module_variables of
                Inl e \<Rightarrow> Inl e
              | Inr further \<Rightarrow> Inr (found @ further)))
      else if node_type child = ''decorated_definition'' then
        (case process_decorated_definition ext child context' import_map module_variables of
           Inl e \<Rightarrow> Inl e
         | Inr found \<Rightarrow>
             (case process_nested ext rest func_name context' import_map module_variables of
                Inl e \<Rightarrow> Inl e
              | Inr further \<Rightarrow> Inr (found @ further)))
      else process_nested ext rest func_name context' import_map module_variables)"
  by pat_completeness auto
termination
proof -
  have inner: "size_list size (node_children c) \<le> size_list size cs"
    if "c \<in> set cs" for c :: node and cs
  proof -
    have "size_list size (node_children c) \<le> size c" by (cases c) simp
    with that show ?thesis by (rule size_list_estimation')
  qed
  show ?thesis
    by (relation "measure (\<lambda>x. case x of
                             Inl (ext, node, rest) \<Rightarrow> size node
                           | Inr (ext, nodes, rest) \<Rightarrow> size_list size nodes)")
      (auto simp: child_by_field_name_def find_Some_iff less_Suc_eq_le intro: inner)
qed

text \<open>
  \<open>process_class\<close>: the loop over the children of the class body collects the
  attribute lines, the constructor, the other methods and the identifiers of the
  attributes.
\<close>

fun class_body_loop ::
  "node list \<Rightarrow> string list \<Rightarrow> node option \<Rightarrow> node list \<Rightarrow> string list \<Rightarrow>
     py_error + (string list \<times> node option \<times> node list \<times> string list)" where
  "class_body_loop [] class_attributes init_method other_methods identifiers =
     Inr (class_attributes, init_method, other_methods, identifiers)"
| "class_body_loop (child # rest) class_attributes init_method other_methods identifiers =
     (if node_type child = ''expression_statement'' then
        (case node_children child of
           [] \<Rightarrow> Inl IndexError
         | assignment # _ \<Rightarrow>
             if node_type assignment = ''assignment'' then
               class_body_loop rest (class_attributes @ [node_text assignment]) init_method
                 other_methods (collect_identifiers assignment identifiers)
             else if node_type assignment = ''typed_parameter'' then
               class_body_loop rest (class_attributes @ [node_text assignment]) init_method
                 other_methods (collect_identifiers_from_type_annotations assignment identifiers)
             else class_body_loop rest class_attributes init_method other_methods identifiers)
      else if node_type child = ''function_definition'' then
        (case child_by_field_name child ''name'' of
           None \<Rightarrow> Inl AttributeError
         | Some func_name_node \<Rightarrow>
             if node_text func_name_node = ''__init__'' then
               class_body_loop rest class_attributes (Some child) other_methods identifiers
             else
               class_body_loop rest class_attributes init_method (other_methods @ [child])
                 identifiers)
      else if node_type child = ''decorated_definition'' then
        (case find (\<lambda>c. node_type c = ''function_definition'') (node_children child) of
           None \<Rightarrow> class_body_loop rest class_attributes init_method other_methods identifiers
         | Some func_def \<Rightarrow>
             (case child_by_field_name func_def ''name'' of
                None \<Rightarrow> Inl AttributeError
              | Some func_name_node \<Rightarrow>
                  if node_text func_name_node = ''__init__'' then
                    class_body_loop rest class_attributes (Some child) other_methods identifiers
                  else
                    class_body_loop rest class_attributes init_method (other_methods @ [child])
                      identifiers))
      else class_body_loop rest class_attributes init_method other_methods identifiers)"

fun process_methods ::
  "externals \<Rightarrow> node list \<Rightarrow> scope \<Rightarrow> (string \<times> string) list \<Rightarrow> string list \<Rightarrow>
     py_error + code_chunk list" where
  "process_methods ext [] context_copy import_map module_variables = Inr []"
| "process_methods ext (method # rest) context_copy import_map module_variables =
     (case (if node_type method = ''decorated_definition'' then
              process_decorated_definition ext method context_copy import_map module_variables
            else process_function ext method context_copy import_map module_variables) of
        Inl e \<Rightarrow> Inl e
      | Inr found \<Rightarrow>
          (case process_methods ext rest context_copy import_map module_variables of
             Inl e \<Rightarrow> Inl e
           | Inr further \<Rightarrow> Inr (found @ further)))"

definition process_class ::
  "externals \<Rightarrow> node \<Rightarrow> scope \<Rightarrow> (string \<times> string) list \<Rightarrow> string list \<Rightarrow>
     py_error + code_chunk list" where
  "process_class ext node context' import_map module_variables =
     (case child_by_field_name node ''name'' of
        None \<Rightarrow> Inl AttributeError
      | Some class_name_node \<Rightarrow>
          (case child_by_field_name node ''body'' of
             None \<Rightarrow> Inl AttributeError
           | Some class_body \<Rightarrow>
               (case class_body_loop (node_children class_body) [] None [] [] of
                  Inl e \<Rightarrow> Inl e
                | Inr (class_attributes, init_method, other_methods, identifiers) \<Rightarrow>
                    (let class_name = node_text class_name_node;
                         class_context =
                           build_context ext identifiers import_map module_variables None None;
                         class_def_lines =
                           [''class '' @ class_name @ '':''] @
                           map (\<lambda>attr. ''    '' @ attr) class_attributes @
                           (case init_method of
                              None \<Rightarrow> []
                            | Some init \<Rightarrow>
                                split_newline (''\<newline>\<newline>    '' @ node_text init));
                         class_chunk =
                           \<lparr>chunk_type = ''class'', chunk_name = class_name,
                            chunk_definition = join ''\<newline>'' class_def_lines,
                            chunk_ctx = class_context\<rparr>
                     in case process_methods ext other_methods
                               (context'\<lparr>scope_parent_class := Some class_name\<rparr>)
                               import_map module_variables of
                          Inl e \<Rightarrow> Inl e
                        | Inr methods \<Rightarrow> Inr (class_chunk # methods)))))"

fun process_root_loop ::
  "externals \<Rightarrow> node list \<Rightarrow> (string \<times> string) list \<Rightarrow> string list \<Rightarrow>
     py_error + code_chunk list" where
  "process_root_loop ext [] import_map module_variables = Inr []"
| "process_root_loop ext (child # rest) import_map module_variables =
     (let empty_context = \<lparr>scope_parent_class = None, scope_parent_function = None\<rparr>
      in case (if node_type child = ''class_definition'' then
                 process_class ext child empty_context import_map module_variables
               else if node_type child = ''function_definition'' then
                 process_function ext child empty_context import_map module_variables
               else if node_type child = ''decorated_definition'' then
                 process_decorated_definition ext child empty_context import_map module_variables
               else Inr []) of
           Inl e \<Rightarrow> Inl e
         | Inr found \<Rightarrow>
             (case process_root_loop ext rest import_map module_variables of
                Inl e \<Rightarrow> Inl e
              | Inr further \<Rightarrow> Inr (found @ further)))"

definition process_root ::
  "externals \<Rightarrow> node \<Rightarrow> (string \<times> string) list \<Rightarrow> string list \<Rightarrow> py_error + code_chunk list" where
  "process_root ext node import_map module_variables =
     process_root_loop ext (node_children node) import_map module_variables"

text \<open>
  \<open>convert_chunks_to_strs\<close> for one chunk.  \<open>chunk_str[:-4]\<close> drops the last four
  characters, or all of them when there are fewer.
\<close>

definition chunk_to_str :: "code_chunk \<Rightarrow> string" where
  "chunk_to_str c =
     (let chunk_str =
            (case chunk_ctx c of
               None \<Rightarrow> []
             | Some chunk_context \<Rightarrow>
                 if chunk_type c = ''module'' then []
                 else
                   (case ctx_imports chunk_context of
                      None \<Rightarrow> []
                    | Some names \<Rightarrow> join ''\<newline>'' names @ ''\<newline>'') @
                   (case ctx_module_variables chunk_context of
                      None \<Rightarrow> []
                    | Some names \<Rightarrow> join ''\<newline>'' names @ ''\<newline>'') @
                   (case ctx_parent_class chunk_context of
                      None \<Rightarrow> []
                    | Some parent \<Rightarrow>
                        ''\<newline>class: '' @ parent @ ''\<newline>    # ... (more)\<newline>'') @
                   (case ctx_parent_function chunk_context of
                      None \<Rightarrow> []
                    | Some parent \<Rightarrow>
                        ''\<newline>def: '' @ parent @ ''\<newline>    # ... (more)\<newline>'') @
                   ''\<newline>    '');
          chunk_str1 =
            (if chunk_type c = ''class'' then take (length chunk_str - 4) chunk_str
             else chunk_str)
      in chunk_str1 @ chunk_definition c)"

definition convert_chunks_to_strs :: "code_chunk list \<Rightarrow> string list" where
  "convert_chunks_to_strs chunks = map chunk_to_str chunks"

definition chunk_source_code :: "externals \<Rightarrow> string \<Rightarrow> int \<Rightarrow> py_error + string list" where
  "chunk_source_code ext content chunk_size =
     (let root_node = ext_parse_python ext content
      in case build_import_map (collect_imports root_node) of
           Inl e \<Rightarrow> Inl e
         | Inr import_map \<Rightarrow>
             (case collect_module_variables root_node of
                Inl e \<Rightarrow> Inl e
              | Inr module_variables \<Rightarrow>
                  (case process_root ext root_node import_map module_variables of
                     Inl e \<Rightarrow> Inl e
                   | Inr chunks \<Rightarrow>
                       (let chunks_strs = convert_chunks_to_strs chunks;
                            kept = filter (\<lambda>x. 1 < length (splitlines (strip x))) chunks_strs
                        in Inr (concat (map (\<lambda>c. chunk_simple (ext_sent_tokenize ext)
                                                   (ext_tokenize_text ext) c chunk_size) kept))))))"

section \<open>Prose chunkers\<close>

fun extract_text_from_node :: "node \<Rightarrow> string" where
  "extract_text_from_node (Node fld kind src cs) =
     (if cs = [] \<and> src \<noteq> [] then src else concat (map extract_text_from_node cs))"

fun chunk_by_headings_loop ::
  "node list \<Rightarrow> string list \<Rightarrow> string list \<Rightarrow> string option \<Rightarrow> string list" where
  "chunk_by_headings_loop [] chunks current_chunk current_heading =
     (if current_heading \<noteq> None then chunks @ [strip (concat current_chunk)] else chunks)"
| "chunk_by_headings_loop (node # rest) chunks current_chunk current_heading =
     (if node_type node = ''atx_heading'' then
        (let chunks1 =
               (if current_heading \<noteq> None then chunks @ [strip (concat current_chunk)]
                else chunks);
             heading = extract_text_from_node node
         in chunk_by_headings_loop rest chunks1 [heading @ ''\<newline>\<newline>''] (Some heading))
      else if current_heading \<noteq> None then
        chunk_by_headings_loop rest chunks (current_chunk @ [extract_text_from_node node])
          current_heading
      else chunk_by_headings_loop rest chunks current_chunk current_heading)"

definition chunk_by_headings :: "node \<Rightarrow> string list" where
  "chunk_by_headings root_node = chunk_by_headings_loop (node_children root_node) [] [] None"

definition chunk_markdown :: "externals \<Rightarrow> string \<Rightarrow> int \<Rightarrow> string list" where
  "chunk_markdown ext content chunk_size =
     concat (map (\<lambda>c. chunk_simple (ext_sent_tokenize ext) (ext_tokenize_text ext) c chunk_size)
               (chunk_by_headings (ext_parse_markdown ext content)))"

definition chunk_notebook :: "externals \<Rightarrow> string \<Rightarrow> int \<Rightarrow> string list" where
  "chunk_notebook ext content chunk_size =
     chunk_markdown ext (ext_notebook_to_markdown ext content) chunk_size"

text \<open>
  \<open>chunk_pdf\<close>.  A line starts a section when, stripped and in capitals, it starts
  with one of the markers.  \<open>has_table\<close> is \<open>re.search(r'\$\s*[\d,]+', section)\<close>: a
  dollar sign, any whitespace, then a digit or a comma.
\<close>

definition section_markers :: "string list" where
  "section_markers =
     [''CONSOLIDATED STATEMENTS OF'', ''NOTES TO'', ''PART '', ''Item '', ''TABLE OF CONTENTS'']"

definition is_new_section :: "string \<Rightarrow> bool" where
  "is_new_section line = list_ex (\<lambda>marker. startswith (upper (strip line)) marker) section_markers"

fun pdf_sections_loop :: "string list \<Rightarrow> string list \<Rightarrow> string list \<Rightarrow> string list" where
  "pdf_sections_loop [] sections current_section =
     (if current_section \<noteq> [] then sections @ [join ''\<newline>'' current_section] else sections)"
| "pdf_sections_loop (line # rest) sections current_section =
     (if is_new_section line \<and> current_section \<noteq> [] then
        pdf_sections_loop rest (sections @ [join ''\<newline>'' current_section]) [line]
      else pdf_sections_loop rest sections (current_section @ [line]))"

fun has_table :: "string \<Rightarrow> bool" where
  "has_table [] = False"
| "has_table (c # cs) =
     ((c = CHR ''$'' \<and>
       (case dropWhile is_space cs of [] \<Rightarrow> False | d # _ \<Rightarrow> is_digit d \<or> d = CHR '','')) \<or>
      has_table cs)"

fun pdf_pack_loop ::
  "(string \<Rightarrow> string list) \<Rightarrow> int \<Rightarrow> string list \<Rightarrow> string list \<Rightarrow> string list \<Rightarrow> int \<Rightarrow>
     string list" where
  "pdf_pack_loop tokenize chunk_size [] chunks current_chunk current_length =
     (if current_chunk \<noteq> [] then chunks @ [join '' '' current_chunk] else chunks)"
| "pdf_pack_loop tokenize chunk_size (sentence # rest) chunks current_chunk current_length =
     (let sentence_tokens = tokenize sentence
      in if current_length + int (length sentence_tokens) > chunk_size \<and> current_chunk \<noteq> [] then
           pdf_pack_loop tokenize chunk_size rest (chunks @ [join '' '' current_chunk])
             [sentence] (int (length sentence_tokens))
         else
           pdf_pack_loop tokenize chunk_size rest chunks (current_chunk @ [sentence])
             (current_length + int (length sentence_tokens)))"

fun pdf_chunks_loop :: "externals \<Rightarrow> int \<Rightarrow> string list \<Rightarrow> string list \<Rightarrow> string list" where
  "pdf_chunks_loop ext chunk_size [] chunks = chunks"
| "pdf_chunks_loop ext chunk_size (section # rest) chunks =
     (if has_table section then pdf_chunks_loop ext chunk_size rest (chunks @ [section])
      else pdf_chunks_loop ext chunk_size rest
             (pdf_pack_loop (ext_tokenize_text ext) chunk_size (ext_sent_tokenize ext section)
                chunks [] 0))"

definition chunk_pdf :: "externals \<Rightarrow> string \<Rightarrow> int \<Rightarrow> string list" where
  "chunk_pdf ext content chunk_size =
     pdf_chunks_loop ext chunk_size (pdf_sections_loop (splitlines content) [] []) []"

section \<open>Chunking a dataset\<close>

text \<open>
  The loop \<open>for i, chunk in enumerate(chunks)\<close> that every branch of \<open>chunk_dataset\<close>
  has; the branches differ in the chunker and in the \<open>text\<close> field.
\<close>

fun doc_chunks ::
  "externals \<Rightarrow> document \<Rightarrow> (string \<Rightarrow> string) \<Rightarrow> nat \<Rightarrow> string list \<Rightarrow> chunk_doc list" where
  "doc_chunks ext doc text_of i [] = []"
| "doc_chunks ext doc text_of i (c # rest) =
     \<lparr>c_file_type = doc_file_type doc, c_metadata = doc_metadata doc, chunk = c,
      c_text = text_of c, chunk_id = make_id ext c, doc_id = make_id ext (doc_content doc),
      chunk_number = i\<rparr> # doc_chunks ext doc text_of (Suc i) rest"

fun chunk_dataset_loop ::
  "externals \<Rightarrow> document list \<Rightarrow> int \<Rightarrow> chunk_doc list \<Rightarrow> py_error + chunk_doc list" where
  "chunk_dataset_loop ext [] chunk_size all_chunks = Inr all_chunks"
| "chunk_dataset_loop ext (doc # rest) chunk_size all_chunks =
     (if doc_file_type doc = ''python'' then
        (case chunk_source_code ext (doc_content doc) chunk_size of
           Inl e \<Rightarrow> Inl e
         | Inr chunks \<Rightarrow>
             chunk_dataset_loop ext rest chunk_size
               (all_chunks @ doc_chunks ext doc (\<lambda>c. c) 0 chunks))
      else if doc_file_type doc = ''notebook'' then
        chunk_dataset_loop ext rest chunk_size
          (all_chunks @
           doc_chunks ext doc (\<lambda>c. c) 0 (chunk_notebook ext (doc_content doc) chunk_size))
      else if doc_file_type doc = ''pdf'' then
        chunk_dataset_loop ext rest chunk_size
          (all_chunks @
           doc_chunks ext doc (\<lambda>c. ext_convert_contents_to_text ext c ''pdf'') 0
             (chunk_pdf ext (doc_content doc) chunk_size))
      else
        chunk_dataset_loop ext rest chunk_size
          (all_chunks @
           doc_chunks ext doc (\<lambda>c. ext_convert_contents_to_text ext c ''markdown'') 0
             (chunk_markdown ext (doc_content doc) chunk_size)))"

definition chunk_dataset :: "externals \<Rightarrow> document list \<Rightarrow> int \<Rightarrow> py_error + chunk_doc list" where
  "chunk_dataset ext ds chunk_size = chunk_dataset_loop ext ds chunk_size []"

section \<open>Example data\<close>

text \<open>Concrete collaborators and documents, used where a property is run on an input.\<close>

definition example_chunk :: "string \<Rightarrow> nat \<Rightarrow> chunk_doc" where
  "example_chunk cid n =
     \<lparr>c_file_type = ''markdown'', c_metadata = [], chunk = cid, c_text = cid,
      chunk_id = cid, doc_id = ''doc'', chunk_number = n\<rparr>"

definition example_result :: "string \<Rightarrow> pyfloat \<Rightarrow> search_result" where
  "example_result cid s = with_score s (example_chunk cid 0)"

text \<open>A search engine that returns a fixed list, and a reranker that keeps the first \<open>top_n\<close>.\<close>

definition fixed_search :: "search_result list \<Rightarrow> search_engine" where
  "fixed_search results query top_k = Inr results"

definition replicate_search :: search_engine where
  "replicate_search query top_k = Inr (replicate (nat top_k) (example_result ''A'' (Finite 1)))"

definition prefix_rerank :: reranker where
  "prefix_rerank query documents top_n = Inr (py_slice_to top_n documents)"

text \<open>
  Embedding providers whose embedding of a text is the text itself: one that always
  answers, one that raises a rate-limit exception on the first call only, and one that
  raises another exception on the first call only.
\<close>

definition echo_provider :: "string provider" where
  "echo_provider n input_type batch = Inr batch"

definition rate_limited_once :: "string provider" where
  "rate_limited_once n input_type batch =
     (if n = 0 then Inl ''Rate limit exceeded, retry later'' else Inr batch)"

definition failing_once :: "string provider" where
  "failing_once n input_type batch =
     (if n = 0 then Inl ''connection reset'' else Inr batch)"

definition start :: embed_state where
  "start = \<lparr>calls = 0, trace = []\<rparr>"

text \<open>
  External rankings that do not depend on the query: a fixed row of cosine distances,
  a fixed BM25 answer and a fixed answer of the vector store.
\<close>

definition fixed_cdist :: "pyfloat list \<Rightarrow> 'q \<Rightarrow> 'ix \<Rightarrow> pyfloat list" where
  "fixed_cdist ds q index = ds"

definition fixed_retrieve ::
  "(chunk_doc \<times> pyfloat) list \<Rightarrow> string \<Rightarrow> chunk_doc list \<Rightarrow> int \<Rightarrow> (chunk_doc \<times> pyfloat) list" where
  "fixed_retrieve matches query data top_k = matches"

definition fixed_vs_query ::
  "(chunk_doc \<times> pyfloat) list \<Rightarrow> unit \<Rightarrow> string \<Rightarrow> int \<Rightarrow> unit option \<Rightarrow> (chunk_doc \<times> pyfloat) list" where
  "fixed_vs_query matches index q top_k filters = matches"

text \<open>
  \<open>argsort\<close> by a stable insertion sort on the distances, NaN last as numpy sorts it:
  one function that meets numpy's contract.
\<close>

fun insert_index :: "pyfloat list \<Rightarrow> nat \<Rightarrow> nat list \<Rightarrow> nat list" where
  "insert_index ds i [] = [i]"
| "insert_index ds i (j # js) =
     (if float_le (ds ! j) (ds ! i) \<or> ds ! i = NaN then j # insert_index ds i js
      else i # j # js)"

definition stable_argsort :: "pyfloat list \<Rightarrow> nat list" where
  "stable_argsort ds = foldl (\<lambda>order i. insert_index ds i order) [] [0..<length ds]"

text \<open>Three chunks of one document, and engines that were fitted with them.\<close>

definition example_corpus :: "chunk_doc list" where
  "example_corpus = [example_chunk ''A'' 0, example_chunk ''B'' 1, example_chunk ''C'' 2]"

definition fitted_tfidf :: "unit tfidf_engine" where
  "fitted_tfidf = tfidf_fit (\<lambda>docs. ()) example_corpus"

definition fitted_bm25 :: bm25_engine where
  "fitted_bm25 = bm25_fit example_corpus"

definition fitted_dense :: "string dense_engine" where
  "fitted_dense = \<lparr>dense_index = Some (map c_text example_corpus), dense_data = Some example_corpus\<rparr>"

definition loaded_vs :: "unit vector_store_engine" where
  "loaded_vs = vs_load () vs_init"


definition char_tokens :: "string \<Rightarrow> string list" where
  "char_tokens s = map (\<lambda>c. [c]) s"




text \<open>
  A Python module with two imports and a function that uses both, as a document, and
  its syntax tree as the tree-sitter parser gives it.
\<close>

definition example_python_source :: string where
  "example_python_source =
     ''import os\<newline>import sys\<newline>\<newline>def f():\<newline>    os.getcwd()\<newline>    sys.exit(0)\<newline>''"

definition example_python_tree :: node where
  "example_python_tree =
     Node [] ''module'' example_python_source
       [Node [] ''import_statement'' ''import os''
          [Node [] ''import'' ''import'' [],
           Node ''name'' ''dotted_name'' ''os'' [Node [] ''identifier'' ''os'' []]],
        Node [] ''import_statement'' ''import sys''
          [Node [] ''import'' ''import'' [],
           Node ''name'' ''dotted_name'' ''sys'' [Node [] ''identifier'' ''sys'' []]],
        Node [] ''function_definition''
          ''def f():\<newline>    os.getcwd()\<newline>    sys.exit(0)''
          [Node [] ''def'' ''def'' [],
           Node ''name'' ''identifier'' ''f'' [],
           Node ''parameters'' ''parameters'' ''()''
             [Node [] ''('' ''('' [], Node [] '')'' '')'' []],
           Node [] '':'' '':'' [],
           Node ''body'' ''block'' ''os.getcwd()\<newline>    sys.exit(0)''
             [Node [] ''expression_statement'' ''os.getcwd()''
                [Node [] ''call'' ''os.getcwd()''
                   [Node ''function'' ''attribute'' ''os.getcwd''
                      [Node ''object'' ''identifier'' ''os'' [],
                       Node [] ''.'' ''.'' [],
                       Node ''attribute'' ''identifier'' ''getcwd'' []],
                    Node ''arguments'' ''argument_list'' ''()''
                      [Node [] ''('' ''('' [], Node [] '')'' '')'' []]]],
              Node [] ''expression_statement'' ''sys.exit(0)''
                [Node [] ''call'' ''sys.exit(0)''
                   [Node ''function'' ''attribute'' ''sys.exit''
                      [Node ''object'' ''identifier'' ''sys'' [],
                       Node [] ''.'' ''.'' [],
                       Node ''attribute'' ''identifier'' ''exit'' []],
                    Node ''arguments'' ''argument_list'' ''(0)''
                      [Node [] ''('' ''('' [], Node [] ''integer'' ''0'' [],
                       Node [] '')'' '')'' []]]]]]]"

text \<open>
  A stand-in for the iteration order of a set: the elements by their bucket in a table
  of eight, under a hash that starts from the seed of the process.
\<close>

definition bucket :: "nat \<Rightarrow> string \<Rightarrow> nat" where
  "bucket seed s = foldl (\<lambda>h c. (h * 33 + of_char c) mod 8) seed s"

definition hash_order :: "nat \<Rightarrow> string list \<Rightarrow> string list" where
  "hash_order seed elements = sort_key (bucket seed) elements"

definition example_externals :: "(string \<Rightarrow> string) \<Rightarrow> nat \<Rightarrow> externals" where
  "example_externals md5 seed =
     \<lparr>ext_md5 = md5,
      ext_sent_tokenize = (\<lambda>s. [s]),
      ext_tokenize_text = char_tokens,
      ext_parse_python = (\<lambda>s. example_python_tree),
      ext_parse_markdown = (\<lambda>s. Node [] ''document'' s []),
      ext_notebook_to_markdown = (\<lambda>s. s),
      ext_convert_contents_to_text = (\<lambda>s file_type. s),
      ext_set_iteration = hash_order seed\<rparr>"

definition example_python_doc :: document where
  "example_python_doc =
     \<lparr>doc_content = example_python_source, doc_file_type = ''python'',
      doc_metadata = [(''source'', ''f.py'')]\<rparr>"

section \<open>The derivation of breadth and final count\<close>

lemma derive_top_k_only:
  "k \<noteq> 0 \<Longrightarrow> derive_top_k_top_n (Some k) None = Inr (2 * k, k)"
  by (simp add: derive_top_k_top_n_def)

lemma derive_top_n_only:
  "n \<noteq> 0 \<Longrightarrow> derive_top_k_top_n None (Some n) = Inr (2 * n, n)"
  by (simp add: derive_top_k_top_n_def)

lemma derive_equal:
  "derive_top_k_top_n (Some k) (Some k) = Inr (2 * k, k)"
  by (simp add: derive_top_k_top_n_def)

lemma derive_unequal:
  "k \<noteq> 0 \<Longrightarrow> n \<noteq> 0 \<Longrightarrow> k \<noteq> n \<Longrightarrow> derive_top_k_top_n (Some k) (Some n) = Inr (10, 5)"
  by (simp add: derive_top_k_top_n_def)

lemma derive_zero:
  "derive_top_k_top_n (Some 0) None = Inr (10, 5)"
  "derive_top_k_top_n None (Some 0) = Inr (10, 5)"
  by (simp_all add: derive_top_k_top_n_def)

lemma derive_examples:
  "derive_top_k_top_n (Some 5) None = Inr (10, 5)"
  "derive_top_k_top_n (Some 6) (Some 6) = Inr (12, 6)"
  by (simp_all add: derive_top_k_top_n_def)

text \<open>
  C1.  The claim: the pair (breadth, final) follows the table, and in particular a call
  with neither \<open>top_k\<close> nor \<open>top_n\<close> runs with breadth 10 and final count 5.  The rows
  for one argument and for two equal arguments hold (\<open>derive_top_k_only\<close>,
  \<open>derive_top_n_only\<close>, \<open>derive_equal\<close>).  A call without both arguments does not
  reach the defaults: \<open>None == None\<close> selects the third branch, and \<open>None * 2\<close> raises
  \<open>TypeError\<close>, in both orchestrators and before any backend is called.
\<close>

theorem invoke_without_arguments_raises:
  "derive_top_k_top_n None None = Inl TypeError \<and>
   retriever_with_reranker_invoke search rerank query None None = Inl TypeError \<and>
   hybrid_invoke sparse_search dense_search' rerank query None None = Inl TypeError"
  by (simp add: retriever_with_reranker_invoke_def hybrid_invoke_def derive_top_k_top_n_def)

text \<open>
  C10.  An explicit \<open>0\<close> for \<open>top_k\<close> with \<open>top_n\<close> left out, or for \<open>top_n\<close> with
  \<open>top_k\<close> left out, is falsy like \<open>None\<close>; the chain falls through to its last branch
  and both orchestrators run with breadth 10 and final count 5, not with a breadth
  derived from the \<open>0\<close>.
\<close>

theorem zero_argument_uses_defaults:
  "truthy (Some 0) = truthy None \<and>
   retriever_with_reranker_invoke search rerank query (Some 0) None =
     (case search query 10 of Inl e \<Rightarrow> Inl e | Inr retrievals \<Rightarrow> rerank query retrievals 5) \<and>
   retriever_with_reranker_invoke search rerank query None (Some 0) =
     (case search query 10 of Inl e \<Rightarrow> Inl e | Inr retrievals \<Rightarrow> rerank query retrievals 5) \<and>
   hybrid_invoke sparse_search dense_search' rerank query (Some 0) None =
     (case sparse_search query 10 of
        Inl e \<Rightarrow> Inl e
      | Inr sparse_retrievals \<Rightarrow>
          (case dense_search' query 10 of
             Inl e \<Rightarrow> Inl e
           | Inr dense_retrievals \<Rightarrow>
               rerank query (dedupe (sparse_retrievals @ dense_retrievals)) 5)) \<and>
   hybrid_invoke sparse_search dense_search' rerank query None (Some 0) =
     (case sparse_search query 10 of
        Inl e \<Rightarrow> Inl e
      | Inr sparse_retrievals \<Rightarrow>
          (case dense_search' query 10 of
             Inl e \<Rightarrow> Inl e
           | Inr dense_retrievals \<Rightarrow>
               rerank query (dedupe (sparse_retrievals @ dense_retrievals)) 5))"
  by (simp add: retriever_with_reranker_invoke_def hybrid_invoke_def derive_zero)

text \<open>
  C6.  The claim: a combination of \<open>top_k\<close> and \<open>top_n\<close> whose breadth would be smaller
  than the requested final count is rejected with a validation error before any
  backend call.  The orchestrators validate nothing.  With \<open>top_k = 3\<close> and
  \<open>top_n = 7\<close> the call succeeds and returns five results.
\<close>

theorem smaller_breadth_not_rejected:
  "retriever_with_reranker_invoke replicate_search prefix_rerank ''q'' (Some 3) (Some 7) =
     Inr (replicate 5 (example_result ''A'' (Finite 1)))"
  by code_simp

text \<open>
  C6, amended.  When both arguments are given, whatever their values, the call is not
  rejected: the orchestrators derive a final count and a breadth of twice that count,
  query the backends with the breadth and ask the reranker for the final count.  When
  the two arguments are equal, the final count is their value.
\<close>

theorem both_arguments_reach_the_backends:
  "\<exists>final.
     derive_top_k_top_n (Some k) (Some n) = Inr (2 * final, final) \<and>
     (k = n \<longrightarrow> final = k) \<and>
     retriever_with_reranker_invoke search rerank query (Some k) (Some n) =
       (case search query (2 * final) of
          Inl e \<Rightarrow> Inl e
        | Inr retrievals \<Rightarrow> rerank query retrievals final) \<and>
     hybrid_invoke sparse_search dense_search' rerank query (Some k) (Some n) =
       (case sparse_search query (2 * final) of
          Inl e \<Rightarrow> Inl e
        | Inr sparse_retrievals \<Rightarrow>
            (case dense_search' query (2 * final) of
               Inl e \<Rightarrow> Inl e
             | Inr dense_retrievals \<Rightarrow>
                 rerank query (dedupe (sparse_retrievals @ dense_retrievals)) final))"
proof -
  define final where
    "final = (if k \<noteq> 0 \<and> n = 0 then k else if n \<noteq> 0 \<and> k = 0 then n
              else if k = n then k else 5)"
  have d: "derive_top_k_top_n (Some k) (Some n) = Inr (2 * final, final)"
    by (simp add: derive_top_k_top_n_def final_def)
  have e: "k = n \<longrightarrow> final = k"
    by (simp add: final_def)
  show ?thesis
    by (rule exI [of _ final])
       (simp add: d e retriever_with_reranker_invoke_def hybrid_invoke_def)
qed

text \<open>The example of the specification, \<open>top_k = top_n = 6\<close>: breadth 12, six results.\<close>

theorem both_arguments_reach_the_backends_witness:
  "retriever_with_reranker_invoke replicate_search prefix_rerank ''q'' (Some 6) (Some 6) =
     Inr (replicate 6 (example_result ''A'' (Finite 1))) \<and>
   hybrid_invoke replicate_search replicate_search prefix_rerank ''q'' (Some 6) (Some 6) =
     Inr [example_result ''A'' (Finite 1)]"
proof -
  have s: "replicate_search ''q'' 12 = Inr (replicate 12 (example_result ''A'' (Finite 1)))"
    by (simp add: replicate_search_def)
  have r: "prefix_rerank ''q'' (replicate 12 (example_result ''A'' (Finite 1))) 6 =
             Inr (replicate 6 (example_result ''A'' (Finite 1)))"
    by (simp add: prefix_rerank_def py_slice_to_def)
  have d: "dedupe (replicate 12 (example_result ''A'' (Finite 1)) @
                   replicate 12 (example_result ''A'' (Finite 1))) =
             [example_result ''A'' (Finite 1)]"
    by code_simp
  have r': "prefix_rerank ''q'' [example_result ''A'' (Finite 1)] 6 =
              Inr [example_result ''A'' (Finite 1)]"
    by (simp add: prefix_rerank_def py_slice_to_def)
  from both_arguments_reach_the_backends
         [of 6 6 replicate_search prefix_rerank "''q''" replicate_search replicate_search]
  obtain final where f: "(6 :: int) = 6 \<longrightarrow> final = 6"
    and i: "retriever_with_reranker_invoke replicate_search prefix_rerank ''q'' (Some 6) (Some 6) =
              (case replicate_search ''q'' (2 * final) of
                 Inl e \<Rightarrow> Inl e
               | Inr retrievals \<Rightarrow> prefix_rerank ''q'' retrievals final)"
    and h: "hybrid_invoke replicate_search replicate_search prefix_rerank ''q'' (Some 6) (Some 6) =
              (case replicate_search ''q'' (2 * final) of
                 Inl e \<Rightarrow> Inl e
               | Inr sparse_retrievals \<Rightarrow>
                   (case replicate_search ''q'' (2 * final) of
                      Inl e \<Rightarrow> Inl e
                    | Inr dense_retrievals \<Rightarrow>
                        prefix_rerank ''q'' (dedupe (sparse_retrievals @ dense_retrievals)) final))"
    by blast
  from f have final: "final = 6" by simp
  have t: "(2 :: int) * 6 = 12" by simp
  from i h show ?thesis
    by (simp only: final t s r d r' sum.case)
qed

section \<open>Hybrid fusion\<close>

lemma dict_set_keys:
  "fst ` set (dict_set k v d) = insert k (fst ` set d)"
  by (induction k v d rule: dict_set.induct) (simp_all add: insert_commute)

lemma dict_set_distinct:
  "distinct (map fst d) \<Longrightarrow> distinct (map fst (dict_set k v d))"
proof (induction d)
  case Nil
  show ?case by simp
next
  case (Cons p d)
  obtain k' v' where p: "p = (k', v')" by (cases p)
  from Cons have "distinct (map fst (dict_set k v d))" by simp
  moreover from Cons.prems p have "k' \<notin> fst ` set d" by simp
  ultimately show ?case
    using Cons.prems p dict_set_keys [of k v d] by auto
qed

lemma dict_set_map_of:
  "map_of (dict_set k v d) = (map_of d)(k \<mapsto> v)"
  by (induction d) (auto simp: fun_eq_iff)

lemma dict_set_entries:
  "set (dict_set k v d) \<subseteq> insert (k, v) (set d)"
  by (induction d) (auto split: if_splits)

text \<open>
  The invariant of the deduplication loop: the dictionary has every key once, and
  every document is stored under its own \<open>chunk_id\<close>.
\<close>

lemma dedupe_loop_keyed:
  assumes "distinct (map fst d)" and "\<forall>p \<in> set d. chunk_id (snd p) = fst p"
  shows "distinct (map fst (dedupe_loop xs d)) \<and>
         (\<forall>p \<in> set (dedupe_loop xs d). chunk_id (snd p) = fst p)"
  using assms
proof (induction xs arbitrary: d)
  case Nil
  then show ?case by simp
next
  case (Cons x xs)
  have "distinct (map fst (dict_set (chunk_id x) x d))"
    using Cons.prems(1) by (rule dict_set_distinct)
  moreover have "\<forall>p \<in> set (dict_set (chunk_id x) x d). chunk_id (snd p) = fst p"
    using Cons.prems(2) dict_set_entries [of "chunk_id x" x d] by auto
  ultimately show ?case
    using Cons.IH by simp
qed

lemma dedupe_loop_keys:
  "fst ` set (dedupe_loop xs d) = chunk_id ` set xs \<union> fst ` set d"
  by (induction xs arbitrary: d) (auto simp: dict_set_keys)

lemma dedupe_loop_map_of:
  "map_of (dedupe_loop xs d) k =
     (case filter (\<lambda>x. chunk_id x = k) xs of
        [] \<Rightarrow> map_of d k
      | y # ys \<Rightarrow> Some (last (y # ys)))"
proof (induction xs arbitrary: d)
  case Nil
  show ?case by simp
next
  case (Cons x xs)
  show ?case
    by (simp add: Cons.IH dict_set_map_of split: list.splits)
qed

lemma dedupe_chunk_ids: "map chunk_id (dedupe xs) = map fst (dedupe_loop xs [])"
proof -
  have "\<forall>p \<in> set (dedupe_loop xs []). chunk_id (snd p) = fst p"
    using dedupe_loop_keyed [of "[]" xs] by simp
  then show ?thesis by (simp add: dedupe_def)
qed

lemma dedupe_distinct: "distinct (map chunk_id (dedupe xs))"
  using dedupe_loop_keyed [of "[]" xs] by (simp add: dedupe_chunk_ids)

lemma dedupe_ids: "chunk_id ` set (dedupe xs) = chunk_id ` set xs"
proof -
  have "set (map chunk_id (dedupe xs)) = set (map fst (dedupe_loop xs []))"
    by (simp only: dedupe_chunk_ids)
  then show ?thesis by (simp add: dedupe_loop_keys)
qed

lemma dedupe_last:
  assumes "r \<in> set (dedupe xs)"
  shows "filter (\<lambda>d. chunk_id d = chunk_id r) xs \<noteq> [] \<and>
         r = last (filter (\<lambda>d. chunk_id d = chunk_id r) xs)"
proof -
  have k: "distinct (map fst (dedupe_loop xs []))"
    and v: "\<forall>p \<in> set (dedupe_loop xs []). chunk_id (snd p) = fst p"
    using dedupe_loop_keyed [of "[]" xs] by simp_all
  from assms obtain key where mem: "(key, r) \<in> set (dedupe_loop xs [])"
    by (auto simp: dedupe_def)
  with v have key: "key = chunk_id r" by auto
  from k mem have "map_of (dedupe_loop xs []) key = Some r"
    by simp
  then show ?thesis
    unfolding key by (simp add: dedupe_loop_map_of split: list.splits)
qed

text \<open>
  C4.  The hybrid orchestrator hands the reranker the concatenation of the sparse and
  the dense results, deduplicated by \<open>chunk_id\<close>: every \<open>chunk_id\<close> of either list
  occurs exactly once, the surviving document of an id is its last occurrence in the
  concatenation, and so for an id that the dense backend returned the survivor is the
  dense backend's copy.
\<close>

theorem hybrid_fusion:
  assumes "derive_top_k_top_n top_k top_n = Inr (k, n)"
    and "sparse_search query k = Inr sparse_retrievals"
    and "dense_search' query k = Inr dense_retrievals"
  shows "\<exists>fused.
           hybrid_invoke sparse_search dense_search' rerank query top_k top_n =
             rerank query fused n \<and>
           distinct (map chunk_id fused) \<and>
           set (map chunk_id fused) = chunk_id ` (set sparse_retrievals \<union> set dense_retrievals) \<and>
           (\<forall>r \<in> set fused.
              r = last (filter (\<lambda>d. chunk_id d = chunk_id r)
                         (sparse_retrievals @ dense_retrievals)) \<and>
              (chunk_id r \<in> chunk_id ` set dense_retrievals \<longrightarrow> r \<in> set dense_retrievals))"
proof -
  let ?all = "sparse_retrievals @ dense_retrievals"
  have inv: "hybrid_invoke sparse_search dense_search' rerank query top_k top_n =
               rerank query (dedupe ?all) n"
    using assms by (simp add: hybrid_invoke_def)
  have last: "r = last (filter (\<lambda>d. chunk_id d = chunk_id r) ?all)"
    if "r \<in> set (dedupe ?all)" for r
    using dedupe_last [OF that] by (rule conjunct2)
  have later: "r \<in> set dense_retrievals"
    if r: "r \<in> set (dedupe ?all)" and d: "chunk_id r \<in> chunk_id ` set dense_retrievals" for r
  proof -
    from d have ne: "filter (\<lambda>d. chunk_id d = chunk_id r) dense_retrievals \<noteq> []"
      by (auto simp: filter_empty_conv)
    have "r = last (filter (\<lambda>d. chunk_id d = chunk_id r) ?all)"
      using r by (rule last)
    also have "\<dots> = last (filter (\<lambda>d. chunk_id d = chunk_id r) dense_retrievals)"
      using ne by simp
    finally have "r \<in> set (filter (\<lambda>d. chunk_id d = chunk_id r) dense_retrievals)"
      using ne last_in_set by metis
    then show ?thesis by simp
  qed
  have ids: "set (map chunk_id (dedupe ?all)) =
               chunk_id ` (set sparse_retrievals \<union> set dense_retrievals)"
    using dedupe_ids [of ?all] by simp
  show ?thesis
  proof (intro exI [of _ "dedupe ?all"] conjI ballI)
    show "hybrid_invoke sparse_search dense_search' rerank query top_k top_n =
            rerank query (dedupe ?all) n" by (rule inv)
    show "distinct (map chunk_id (dedupe ?all))" by (rule dedupe_distinct)
    show "set (map chunk_id (dedupe ?all)) =
            chunk_id ` (set sparse_retrievals \<union> set dense_retrievals)" by (rule ids)
  next
    fix r assume "r \<in> set (dedupe ?all)"
    then show "r = last (filter (\<lambda>d. chunk_id d = chunk_id r) ?all)" by (rule last)
  next
    fix r assume "r \<in> set (dedupe ?all)"
    then show "chunk_id r \<in> chunk_id ` set dense_retrievals \<longrightarrow> r \<in> set dense_retrievals"
      using later by blast
  qed
qed

text \<open>
  The example of the specification: sparse results \<open>A, B, C\<close> and dense results
  \<open>B, D\<close>; the copies of \<open>B\<close> differ in their score.  The fused list has the four ids,
  and its \<open>B\<close> is the dense one.
\<close>

theorem hybrid_fusion_witness:
  "derive_top_k_top_n (Some 5) None = Inr (10, 5) \<and>
   (\<exists>fused.
      hybrid_invoke
        (fixed_search [example_result ''A'' (Finite (7 / 8)), example_result ''B'' (Finite (3 / 4)),
                       example_result ''C'' (Finite (5 / 8))])
        (fixed_search [example_result ''B'' (Finite (1 / 2)), example_result ''D'' (Finite (3 / 8))])
        prefix_rerank ''q'' (Some 5) None = prefix_rerank ''q'' fused 5 \<and>
      fused = [example_result ''A'' (Finite (7 / 8)), example_result ''B'' (Finite (1 / 2)),
               example_result ''C'' (Finite (5 / 8)), example_result ''D'' (Finite (3 / 8))] \<and>
      distinct (map chunk_id fused) \<and>
      set (map chunk_id fused) = {''A'', ''B'', ''C'', ''D''} \<and>
      length fused = 4)"
proof -
  let ?s = "[example_result ''A'' (Finite (7 / 8)), example_result ''B'' (Finite (3 / 4)),
             example_result ''C'' (Finite (5 / 8))]"
  let ?d = "[example_result ''B'' (Finite (1 / 2)), example_result ''D'' (Finite (3 / 8))]"
  let ?f = "[example_result ''A'' (Finite (7 / 8)), example_result ''B'' (Finite (1 / 2)),
             example_result ''C'' (Finite (5 / 8)), example_result ''D'' (Finite (3 / 8))]"
  have d: "derive_top_k_top_n (Some 5) None = Inr (10, 5)"
    by (simp add: derive_top_k_top_n_def)
  have s: "fixed_search ?s ''q'' 10 = Inr ?s" and s': "fixed_search ?d ''q'' 10 = Inr ?d"
    by (simp_all add: fixed_search_def)
  from hybrid_fusion
         [where sparse_search = "fixed_search ?s" and dense_search' = "fixed_search ?d"
            and query = "''q''" and rerank = prefix_rerank, OF d s s']
  obtain fused where inv: "hybrid_invoke (fixed_search ?s) (fixed_search ?d) prefix_rerank
                             ''q'' (Some 5) None = prefix_rerank ''q'' fused 5"
    and dist: "distinct (map chunk_id fused)"
    and ids: "set (map chunk_id fused) = chunk_id ` (set ?s \<union> set ?d)"
    by blast
  have e: "hybrid_invoke (fixed_search ?s) (fixed_search ?d) prefix_rerank ''q'' (Some 5) None =
             prefix_rerank ''q'' ?f 5"
    by code_simp
  have "distinct (map chunk_id ?f)" by code_simp
  moreover have "set (map chunk_id ?f) = {''A'', ''B'', ''C'', ''D''}"
    by (simp add: example_result_def example_chunk_def with_score_def chunk_doc.extend_def)
  ultimately show ?thesis
    using d e inv dist ids by (intro conjI exI [of _ ?f]) simp_all
qed

section \<open>Batch embedding: rate limits and failures\<close>

lemma py_range_step_single: "py_range_step (Suc 0) 25 = [0]"
  by code_simp

lemma rate_limited_message: "is_rate_limit ''Rate limit exceeded, retry later''"
  by code_simp

text \<open>A failure that is not a rate limit ends the loop at once, with no sleep.\<close>

lemma batch_loop_other_failure:
  assumes "pc (calls st) input_type (take batch_size (drop i docs)) = Inl msg"
    and "\<not> is_rate_limit msg"
  shows "batch_loop pc input_type docs batch_size (i # rest) all_embeddings st =
           (Inl (ProviderError msg),
            st\<lparr>calls := calls st + 1,
                trace := trace st @ [Embed (take batch_size (drop i docs))]\<rparr>)"
  using assms by (simp add: Let_def)

text \<open>The loop calls the provider once for every value of the range, at most.\<close>

lemma batch_loop_calls:
  "batch_loop pc input_type docs batch_size ixs all_embeddings st = (res, st') \<Longrightarrow>
     calls st' \<le> calls st + length ixs"
proof (induction ixs arbitrary: all_embeddings st)
  case Nil
  then show ?case by simp
next
  case (Cons i ixs)
  show ?case
  proof (cases "pc (calls st) input_type (take batch_size (drop i docs))")
    case (Inr embeddings)
    with Cons.prems Cons.IH show ?thesis
      by (fastforce simp: Let_def)
  next
    case (Inl msg)
    with Cons.prems Cons.IH show ?thesis
      by (fastforce simp: Let_def split: if_splits)
  qed
qed

text \<open>
  C2.  The claim: on a rate-limit signal the backend sleeps and sends the same batch
  once more, so no batch is skipped.  The code sleeps and goes on with the next batch.
  With two documents in batches of one and a provider that is rate limited on its
  first call only, the provider sees \<open>a\<close> once and \<open>b\<close> once, and the result holds
  the embedding of \<open>b\<close> alone.  With the default batch size the only batch is lost and
  \<open>np.stack\<close> raises \<open>ValueError\<close> on the empty list.
\<close>

theorem rate_limited_batch_is_skipped:
  "batch_embed rate_limited_once [''a'', ''b''] ''passage'' 1 start =
     (Inr [''b''],
      \<lparr>calls = 2, trace = [Embed [''a''], Sleep 60000, Embed [''b''], Sleep 500]\<rparr>) \<and>
   batch_embed rate_limited_once [''a'', ''b''] ''passage'' 25 start =
     (Inl ValueError, \<lparr>calls = 1, trace = [Embed [''a'', ''b''], Sleep 60000]\<rparr>)"
proof -
  have r1: "py_range_step (length [''a'', ''b'']) 1 = [0, 1]"
    and r25: "py_range_step (length [''a'', ''b'']) 25 = [0]"
    by code_simp+
  have l1: "batch_loop rate_limited_once ''passage'' [''a'', ''b''] 1 [0, 1] [] start =
              (Inr [''b''],
               \<lparr>calls = 2, trace = [Embed [''a''], Sleep 60000, Embed [''b''], Sleep 500]\<rparr>)"
    by (simp add: rate_limited_once_def rate_limited_message start_def Let_def)
  have l25: "batch_loop rate_limited_once ''passage'' [''a'', ''b''] 25 [0] [] start =
               (Inr [], \<lparr>calls = 1, trace = [Embed [''a'', ''b''], Sleep 60000]\<rparr>)"
    by (simp add: rate_limited_once_def rate_limited_message start_def Let_def)
  show ?thesis
    unfolding batch_embed_def r1 r25 l1 l25 by (simp add: np_stack_def)
qed

section \<open>Search before fit\<close>

lemma batch_embed_query_echo:
  "batch_embed echo_provider [query] ''query'' 25 st =
     (Inr [query],
      st\<lparr>calls := calls st + 1, trace := trace st @ [Embed [query], Sleep 500]\<rparr>)"
  by (simp add: batch_embed_def py_range_step_single echo_provider_def np_stack_def Let_def)

text \<open>
  C7.  The claim: every backend rejects a \<open>search\<close> before \<open>fit\<close> with a checked
  precondition error.  The TF-IDF and the BM25 backend do, by their assertions.  The
  dense backend has no check and fails with \<open>AttributeError\<close> on \<open>self._index.shape\<close>;
  the vector-store backend first calls the embedding provider and then fails with
  \<open>AttributeError\<close> on \<open>self._index.query\<close>.
\<close>

theorem search_before_fit:
  "tfidf_search cdist argsort tfidf_init query top_k = Inl (AssertionError ''Index is not set'') \<and>
   bm25_search retrieve bm25_init query top_k = Inl (AssertionError ''Data is not set'') \<and>
   dense_search pc cdist' argsort dense_init query top_k st = (Inl AttributeError, st) \<and>
   vs_search echo_provider vs_query vs_init query top_k filters start =
     (Inl AttributeError, \<lparr>calls = 1, trace = [Embed [query], Sleep 500]\<rparr>)"
  by (simp add: tfidf_search_def tfidf_init_def bm25_search_def bm25_init_def
      dense_search_def dense_init_def vs_search_def vs_init_def batch_embed_query_echo start_def)

section \<open>Floating-point arithmetic\<close>

lemma binary_exponent_bounds:
  assumes "0 < x"
  shows "power_int 2 (binary_exponent x) \<le> x \<and> x < power_int 2 (binary_exponent x + 1)"
proof -
  obtain a b where q: "quotient_of x = (a, b)" by force
  have b: "0 < b" using q by (rule quotient_of_denom_pos)
  have x: "x = of_int a / of_int b" using q by (rule quotient_of_div)
  have a: "0 < a" using assms b x by (simp add: zero_less_divide_iff)
  define la where "la = floorlog 2 (nat a)"
  define lb where "lb = floorlog 2 (nat b)"
  define k where "k = int la - int lb"
  have ba: "2 ^ (la - 1) \<le> nat a \<and> nat a < 2 ^ la"
    unfolding la_def using a by (intro floorlog_bounds) simp_all
  have bb: "2 ^ (lb - 1) \<le> nat b \<and> nat b < 2 ^ lb"
    unfolding lb_def using b by (intro floorlog_bounds) simp_all
  have la: "0 < la" and lb: "0 < lb"
    using a b by (simp_all add: la_def lb_def floorlog_def)
  have a_hi: "(of_int a :: rat) < 2 ^ la"
  proof -
    from ba have "int (nat a) < int (2 ^ la)" by (simp only: of_nat_less_iff)
    with a have "a < 2 ^ la" by simp
    then have "(of_int a :: rat) < of_int (2 ^ la)" by (simp only: of_int_less_iff)
    then show ?thesis by simp
  qed
  have a_lo: "(2 :: rat) ^ (la - 1) \<le> of_int a"
  proof -
    from ba have "int (2 ^ (la - 1)) \<le> int (nat a)" by (simp only: of_nat_le_iff)
    with a have "2 ^ (la - 1) \<le> a" by simp
    then have "(of_int (2 ^ (la - 1)) :: rat) \<le> of_int a" by (simp only: of_int_le_iff)
    then show ?thesis by simp
  qed
  have b_hi: "(of_int b :: rat) < 2 ^ lb"
  proof -
    from bb have "int (nat b) < int (2 ^ lb)" by (simp only: of_nat_less_iff)
    with b have "b < 2 ^ lb" by simp
    then have "(of_int b :: rat) < of_int (2 ^ lb)" by (simp only: of_int_less_iff)
    then show ?thesis by simp
  qed
  have b_lo: "(2 :: rat) ^ (lb - 1) \<le> of_int b"
  proof -
    from bb have "int (2 ^ (lb - 1)) \<le> int (nat b)" by (simp only: of_nat_le_iff)
    with b have "2 ^ (lb - 1) \<le> b" by simp
    then have "(of_int (2 ^ (lb - 1)) :: rat) \<le> of_int b" by (simp only: of_int_le_iff)
    then show ?thesis by simp
  qed
  have bpos: "(0 :: rat) < of_int b" using b by simp
  have pk1: "power_int (2 :: rat) (k + 1) = 2 ^ la / 2 ^ (lb - 1)"
  proof -
    have "k + 1 = int la - int (lb - 1)" using lb by (simp add: k_def)
    then show ?thesis by (simp add: power_int_diff)
  qed
  have pk0: "power_int (2 :: rat) (k - 1) = 2 ^ (la - 1) / 2 ^ lb"
  proof -
    have "k - 1 = int (la - 1) - int lb" using la by (simp add: k_def)
    then show ?thesis by (simp add: power_int_diff)
  qed
  have upper: "x < power_int 2 (k + 1)"
  proof -
    have "of_int a * (2 :: rat) ^ (lb - 1) < 2 ^ la * of_int b"
      using a_hi b_lo a b
      by (intro mult_less_le_imp_less) simp_all
    then show ?thesis
      unfolding pk1 x using bpos by (simp add: field_simps)
  qed
  have lower: "power_int 2 (k - 1) < x"
  proof -
    have "(2 :: rat) ^ (la - 1) * of_int b < of_int a * 2 ^ lb"
      using a_lo b_hi a b
      by (intro mult_le_less_imp_less) simp_all
    then show ?thesis
      unfolding pk0 x using bpos by (simp add: field_simps)
  qed
  have e: "binary_exponent x = (if power_int 2 k \<le> x then k else k - 1)"
    by (simp add: binary_exponent_def q Let_def la_def lb_def k_def)
  show ?thesis
  proof (cases "power_int 2 k \<le> x")
    case True
    with e upper show ?thesis by simp
  next
    case False
    with e lower show ?thesis by simp
  qed
qed


lemma binary_exponent_unique:
  assumes "0 < x" and "power_int 2 e \<le> x" and "x < power_int 2 (e + 1)"
  shows "binary_exponent x = e"
proof (rule ccontr)
  assume ne: "binary_exponent x \<noteq> e"
  let ?b = "binary_exponent x"
  from binary_exponent_bounds [OF assms(1)]
  have lo: "power_int 2 ?b \<le> x" and hi: "x < power_int 2 (?b + 1)" by simp_all
  show False
  proof (cases "?b < e")
    case True
    then have "power_int (2 :: rat) (?b + 1) \<le> power_int 2 e"
      by (intro power_int_increasing) simp_all
    with hi assms(2) show False by simp
  next
    case False
    with ne have "e + 1 \<le> ?b" by simp
    then have "power_int (2 :: rat) (e + 1) \<le> power_int 2 ?b"
      by (intro power_int_increasing) simp_all
    with lo assms(3) show False by simp
  qed
qed

lemma binary_exponent_mono:
  assumes "0 < x" and "x \<le> y"
  shows "binary_exponent x \<le> binary_exponent y"
proof (rule ccontr)
  assume "\<not> binary_exponent x \<le> binary_exponent y"
  then have "binary_exponent y + 1 \<le> binary_exponent x" by simp
  then have "power_int (2 :: rat) (binary_exponent y + 1) \<le> power_int 2 (binary_exponent x)"
    by (intro power_int_increasing) simp_all
  moreover have "power_int 2 (binary_exponent x) \<le> x"
    using binary_exponent_bounds [OF assms(1)] by simp
  moreover have "y < power_int 2 (binary_exponent y + 1)"
    using binary_exponent_bounds [of y] assms by simp
  ultimately show False using assms(2) by simp
qed


lemma round_half_even_between:
  "\<lfloor>x\<rfloor> \<le> round_half_even x \<and> round_half_even x \<le> \<lfloor>x\<rfloor> + 1"
  by (simp add: round_half_even_def Let_def)

lemma round_half_even_mono:
  assumes "x \<le> y"
  shows "round_half_even x \<le> round_half_even y"
proof (cases "\<lfloor>x\<rfloor> = \<lfloor>y\<rfloor>")
  case True
  with assms have "x - of_int \<lfloor>x\<rfloor> \<le> y - of_int \<lfloor>y\<rfloor>" by simp
  with True show ?thesis
    by (auto simp: round_half_even_def Let_def)
next
  case False
  with assms have "\<lfloor>x\<rfloor> < \<lfloor>y\<rfloor>" using floor_mono [of x y] by linarith
  then have "\<lfloor>x\<rfloor> + 1 \<le> \<lfloor>y\<rfloor>" by simp
  with round_half_even_between [of x] round_half_even_between [of y]
  show ?thesis by linarith
qed

lemma round_half_even_of_int: "round_half_even (of_int n) = n"
  by (simp add: round_half_even_def)

text \<open>The quantum of a number: the distance of neighbouring doubles around it.\<close>

lemma round_to_double_eq:
  assumes "x \<noteq> 0"
  shows "round_to_double x =
           of_int (round_half_even (x / power_int 2 (max (binary_exponent \<bar>x\<bar>) (- 1022) - 52))) *
             power_int 2 (max (binary_exponent \<bar>x\<bar>) (- 1022) - 52)"
  using assms by (simp add: round_to_double_def Let_def)

lemma scaled_round_le:
  assumes "0 < q" and "x \<le> of_int n * q"
  shows "of_int (round_half_even (x / q)) * q \<le> of_int n * q"
proof -
  from assms have "x / q \<le> of_int n" by (simp add: field_simps)
  then have "round_half_even (x / q) \<le> round_half_even (of_int n)"
    by (rule round_half_even_mono)
  then have "round_half_even (x / q) \<le> n" by (simp add: round_half_even_of_int)
  then have "(of_int (round_half_even (x / q)) :: rat) \<le> of_int n" by (simp only: of_int_le_iff)
  with assms(1) show ?thesis by (simp add: mult_right_mono)
qed

lemma scaled_round_ge:
  assumes "0 < q" and "of_int n * q \<le> x"
  shows "of_int n * q \<le> of_int (round_half_even (x / q)) * q"
proof -
  from assms have "of_int n \<le> x / q" by (simp add: field_simps)
  then have "round_half_even (of_int n) \<le> round_half_even (x / q)"
    by (rule round_half_even_mono)
  then have "n \<le> round_half_even (x / q)" by (simp add: round_half_even_of_int)
  then have "(of_int n :: rat) \<le> of_int (round_half_even (x / q))" by (simp only: of_int_le_iff)
  with assms(1) show ?thesis by (simp add: mult_right_mono)
qed

lemma quantum_times:
  "of_int (2 ^ 53) * power_int (2 :: rat) (e - 52) = power_int 2 (e + 1)"
  "of_int (2 ^ 52) * power_int (2 :: rat) (e - 52) = power_int 2 e"
proof -
  have "power_int (2 :: rat) (53 + (e - 52)) = power_int 2 53 * power_int 2 (e - 52)"
    by (rule power_int_add) simp
  moreover have "53 + (e - 52) = e + 1" by simp
  ultimately have "power_int (2 :: rat) (e + 1) = power_int 2 53 * power_int 2 (e - 52)"
    by simp
  then show "of_int (2 ^ 53) * power_int (2 :: rat) (e - 52) = power_int 2 (e + 1)" by simp
  have "power_int (2 :: rat) (52 + (e - 52)) = power_int 2 52 * power_int 2 (e - 52)"
    by (rule power_int_add) simp
  then have "power_int (2 :: rat) e = power_int 2 52 * power_int 2 (e - 52)"
    by simp
  then show "of_int (2 ^ 52) * power_int (2 :: rat) (e - 52) = power_int 2 e" by simp
qed

lemma round_to_double_pos:
  assumes "0 < x"
  shows "0 \<le> round_to_double x"
    and "round_to_double x \<le> power_int 2 (max (binary_exponent x) (- 1022) + 1)"
    and "- 1022 \<le> binary_exponent x \<Longrightarrow>
           power_int 2 (binary_exponent x) \<le> round_to_double x"
proof -
  let ?e = "max (binary_exponent x) (- 1022)"
  let ?q = "power_int (2 :: rat) (?e - 52)"
  have q: "0 < ?q" by simp
  have r: "round_to_double x = of_int (round_half_even (x / ?q)) * ?q"
    using assms round_to_double_eq [of x] by simp
  from binary_exponent_bounds [OF assms]
  have lo: "power_int 2 (binary_exponent x) \<le> x"
    and hi: "x < power_int 2 (binary_exponent x + 1)" by simp_all
  have "of_int 0 * ?q \<le> of_int (round_half_even (x / ?q)) * ?q"
    using q assms by (intro scaled_round_ge) simp_all
  then show "0 \<le> round_to_double x" unfolding r by simp
  have "power_int (2 :: rat) (binary_exponent x + 1) \<le> power_int 2 (?e + 1)"
    by (intro power_int_increasing) simp_all
  with hi have "x \<le> of_int (2 ^ 53) * ?q" unfolding quantum_times by simp
  with q have "of_int (round_half_even (x / ?q)) * ?q \<le> of_int (2 ^ 53) * ?q"
    by (rule scaled_round_le)
  then show "round_to_double x \<le> power_int 2 (?e + 1)"
    unfolding r quantum_times .
  show "power_int 2 (binary_exponent x) \<le> round_to_double x"
    if "- 1022 \<le> binary_exponent x"
  proof -
    from that have e: "?e = binary_exponent x" by simp
    from lo have "of_int (2 ^ 52) * ?q \<le> x" unfolding quantum_times e .
    with q have "of_int (2 ^ 52) * ?q \<le> of_int (round_half_even (x / ?q)) * ?q"
      by (rule scaled_round_ge)
    then show ?thesis unfolding r quantum_times e .
  qed
qed

lemma round_to_double_neg:
  assumes "x < 0"
  shows "round_to_double x \<le> 0"
    and "- power_int 2 (max (binary_exponent (- x)) (- 1022) + 1) \<le> round_to_double x"
    and "- 1022 \<le> binary_exponent (- x) \<Longrightarrow>
           round_to_double x \<le> - power_int 2 (binary_exponent (- x))"
proof -
  let ?e = "max (binary_exponent (- x)) (- 1022)"
  let ?q = "power_int (2 :: rat) (?e - 52)"
  have q: "0 < ?q" by simp
  have r: "round_to_double x = of_int (round_half_even (x / ?q)) * ?q"
    using assms round_to_double_eq [of x] by simp
  have pos: "0 < - x" using assms by simp
  from binary_exponent_bounds [OF pos]
  have lo: "power_int 2 (binary_exponent (- x)) \<le> - x"
    and hi: "- x < power_int 2 (binary_exponent (- x) + 1)" by simp_all
  have "of_int (round_half_even (x / ?q)) * ?q \<le> of_int 0 * ?q"
    using q assms by (intro scaled_round_le) simp_all
  then show "round_to_double x \<le> 0" unfolding r by simp
  have "power_int (2 :: rat) (binary_exponent (- x) + 1) \<le> power_int 2 (?e + 1)"
    by (intro power_int_increasing) simp_all
  with hi have "of_int (- (2 ^ 53)) * ?q \<le> x"
    using quantum_times(1) [of ?e] by simp
  with q have "of_int (- (2 ^ 53)) * ?q \<le> of_int (round_half_even (x / ?q)) * ?q"
    by (rule scaled_round_ge)
  then show "- power_int 2 (?e + 1) \<le> round_to_double x"
    unfolding r using quantum_times(1) [of ?e] by simp
  show "round_to_double x \<le> - power_int 2 (binary_exponent (- x))"
    if "- 1022 \<le> binary_exponent (- x)"
  proof -
    from that have e: "?e = binary_exponent (- x)" by simp
    from lo have "x \<le> of_int (- (2 ^ 52)) * ?q"
      using quantum_times(2) [of ?e] unfolding e by simp
    with q have "of_int (round_half_even (x / ?q)) * ?q \<le> of_int (- (2 ^ 52)) * ?q"
      by (rule scaled_round_le)
    then show ?thesis
      unfolding r using quantum_times(2) [of ?e] unfolding e by simp
  qed
qed


lemma round_to_double_zero [simp]: "round_to_double 0 = 0"
  by (simp add: round_to_double_def)

lemma scaled_round_mono:
  assumes "0 < q" and "x \<le> y"
  shows "of_int (round_half_even (x / q)) * q \<le> of_int (round_half_even (y / q)) * q"
proof -
  from assms have "x / q \<le> y / q" by (simp add: divide_right_mono)
  then have "round_half_even (x / q) \<le> round_half_even (y / q)"
    by (rule round_half_even_mono)
  then have "(of_int (round_half_even (x / q)) :: rat) \<le> of_int (round_half_even (y / q))"
    by (simp only: of_int_le_iff)
  with assms(1) show ?thesis by (simp add: mult_right_mono)
qed

lemma round_to_double_mono:
  assumes "x \<le> y"
  shows "round_to_double x \<le> round_to_double y"
proof -
  consider "x \<le> 0" and "0 \<le> y" | "0 < x" | "y < 0" using assms by linarith
  then show ?thesis
  proof cases
    case 1
    have "round_to_double x \<le> 0"
      using 1(1) round_to_double_neg(1) [of x] by (cases "x = 0") simp_all
    moreover have "0 \<le> round_to_double y"
      using 1(2) round_to_double_pos(1) [of y] by (cases "y = 0") simp_all
    ultimately show ?thesis by simp
  next
    case 2
    with assms have y: "0 < y" by simp
    define ex where "ex = max (binary_exponent x) (- 1022)"
    define ey where "ey = max (binary_exponent y) (- 1022)"
    have le: "ex \<le> ey"
      using binary_exponent_mono [OF 2 assms] by (simp add: ex_def ey_def)
    have rx: "round_to_double x =
                of_int (round_half_even (x / power_int 2 (ex - 52))) * power_int 2 (ex - 52)"
      using 2 round_to_double_eq [of x] by (simp add: ex_def)
    have ry: "round_to_double y =
                of_int (round_half_even (y / power_int 2 (ey - 52))) * power_int 2 (ey - 52)"
      using y round_to_double_eq [of y] by (simp add: ey_def)
    show ?thesis
    proof (cases "ex = ey")
      case True
      show ?thesis
        unfolding rx ry True using assms by (intro scaled_round_mono) simp_all
    next
      case False
      with le have lt: "ex < ey" by simp
      then have ey: "ey = binary_exponent y" and big: "- 1022 \<le> binary_exponent y"
        by (simp_all add: ex_def ey_def max_def split: if_splits)
      have "round_to_double x \<le> power_int 2 (ex + 1)"
        unfolding ex_def using 2 by (rule round_to_double_pos(2))
      also have "\<dots> \<le> power_int 2 (binary_exponent y)"
        using lt ey by (intro power_int_increasing) simp_all
      also have "\<dots> \<le> round_to_double y"
        using y big by (rule round_to_double_pos(3))
      finally show ?thesis .
    qed
  next
    case 3
    with assms have x: "x < 0" by simp
    define ex where "ex = max (binary_exponent (- x)) (- 1022)"
    define ey where "ey = max (binary_exponent (- y)) (- 1022)"
    have le: "ey \<le> ex"
      using binary_exponent_mono [of "- y" "- x"] 3 assms by (simp add: ex_def ey_def)
    have rx: "round_to_double x =
                of_int (round_half_even (x / power_int 2 (ex - 52))) * power_int 2 (ex - 52)"
      using x round_to_double_eq [of x] by (simp add: ex_def)
    have ry: "round_to_double y =
                of_int (round_half_even (y / power_int 2 (ey - 52))) * power_int 2 (ey - 52)"
      using 3 round_to_double_eq [of y] by (simp add: ey_def)
    show ?thesis
    proof (cases "ex = ey")
      case True
      show ?thesis
        unfolding rx ry True using assms by (intro scaled_round_mono) simp_all
    next
      case False
      with le have lt: "ey < ex" by simp
      then have ex: "ex = binary_exponent (- x)" and big: "- 1022 \<le> binary_exponent (- x)"
        by (simp_all add: ex_def ey_def max_def split: if_splits)
      have "round_to_double x \<le> - power_int 2 (binary_exponent (- x))"
        using x big by (rule round_to_double_neg(3))
      also have "\<dots> \<le> - power_int 2 (ey + 1)"
      proof -
        have "power_int (2 :: rat) (ey + 1) \<le> power_int 2 (binary_exponent (- x))"
          using lt ex by (intro power_int_increasing) simp_all
        then show ?thesis by simp
      qed
      also have "\<dots> \<le> round_to_double y"
        unfolding ey_def using 3 by (rule round_to_double_neg(2))
      finally show ?thesis .
    qed
  qed
qed

text \<open>Numbers with at most 53 significant bits above the smallest quantum are doubles.\<close>

lemma round_to_double_dyadic:
  assumes "x = of_int m * power_int 2 k" and "\<bar>m\<bar> < 2 ^ 53" and "- 1074 \<le> k"
  shows "round_to_double x = x"
proof (cases "x = 0")
  case True
  then show ?thesis by simp
next
  case False
  define e where "e = max (binary_exponent \<bar>x\<bar>) (- 1022)"
  define q where "q = power_int (2 :: rat) (e - 52)"
  have r: "round_to_double x = of_int (round_half_even (x / q)) * q"
    using False round_to_double_eq [of x] by (simp add: q_def e_def)
  have q: "0 < q" by (simp add: q_def)
  have pos: "0 < \<bar>x\<bar>" using False by simp
  have "\<bar>x\<bar> = of_int \<bar>m\<bar> * power_int 2 k"
    by (simp add: assms(1) abs_mult)
  also have "\<dots> < of_int (2 ^ 53) * power_int 2 k"
  proof -
    from assms(2) have "(of_int \<bar>m\<bar> :: rat) < of_int (2 ^ 53)" by (simp only: of_int_less_iff)
    then show ?thesis by (intro mult_strict_right_mono) simp_all
  qed
  also have "\<dots> = power_int 2 (k + 53)"
  proof -
    have "power_int (2 :: rat) (53 + k) = power_int 2 53 * power_int 2 k"
      by (rule power_int_add) simp
    then show ?thesis by (simp add: add.commute)
  qed
  finally have small: "\<bar>x\<bar> < power_int 2 (k + 53)" .
  have "binary_exponent \<bar>x\<bar> < k + 53"
  proof (rule ccontr)
    assume "\<not> binary_exponent \<bar>x\<bar> < k + 53"
    then have "power_int (2 :: rat) (k + 53) \<le> power_int 2 (binary_exponent \<bar>x\<bar>)"
      by (intro power_int_increasing) simp_all
    with binary_exponent_bounds [OF pos] small show False by simp
  qed
  with assms(3) have le: "e - 52 \<le> k" by (simp add: e_def)
  define j where "j = nat (k - (e - 52))"
  have k: "k = (e - 52) + int j" using le by (simp add: j_def)
  have "power_int (2 :: rat) ((e - 52) + int j) = power_int 2 (e - 52) * power_int 2 (int j)"
    by (rule power_int_add) simp
  then have pk: "power_int (2 :: rat) k = q * 2 ^ j" using k by (simp add: q_def)
  have xm: "x = of_int (m * 2 ^ j) * q"
    by (simp add: assms(1) pk)
  then have "x / q = of_int (m * 2 ^ j)" using q by simp
  then have "round_half_even (x / q) = m * 2 ^ j"
    by (simp only: round_half_even_of_int)
  with r xm show ?thesis by simp
qed


lemma to_double_cases:
  "to_double x = PosInf \<and> power_int 2 1024 \<le> round_to_double x \<or>
   to_double x = NegInf \<and> round_to_double x \<le> - power_int 2 1024 \<or>
   to_double x = Finite (round_to_double x) \<and> - power_int 2 1024 < round_to_double x \<and>
     round_to_double x < power_int 2 1024"
proof -
  have "- power_int (2 :: rat) 1024 < power_int 2 1024"
    by (rule less_trans [of _ 0]) simp_all
  then show ?thesis by (auto simp: to_double_def Let_def not_le)
qed

lemma to_double_mono:
  assumes "x \<le> y"
  shows "float_le (to_double x) (to_double y)"
proof -
  have m: "round_to_double x \<le> round_to_double y"
    using assms by (rule round_to_double_mono)
  show ?thesis
    using to_double_cases [of x] to_double_cases [of y] m by auto
qed

lemma to_double_dyadic:
  assumes "x = of_int m * power_int 2 k" and "\<bar>m\<bar> < 2 ^ 53" and "- 1074 \<le> k" and "k \<le> 970"
  shows "to_double x = Finite x"
proof -
  have r: "round_to_double x = x"
    using assms(1-3) by (rule round_to_double_dyadic)
  have "\<bar>x\<bar> = of_int \<bar>m\<bar> * power_int 2 k"
    by (simp add: assms(1) abs_mult)
  also have "\<dots> \<le> of_int (2 ^ 53) * power_int 2 k"
  proof -
    from assms(2) have "(of_int \<bar>m\<bar> :: rat) \<le> of_int (2 ^ 53)" by (simp only: of_int_le_iff)
    then show ?thesis by (intro mult_right_mono) simp_all
  qed
  also have "\<dots> = power_int 2 (53 + k)"
  proof -
    have "power_int (2 :: rat) (53 + k) = power_int 2 53 * power_int 2 k"
      by (rule power_int_add) simp
    then show ?thesis by simp
  qed
  also have "\<dots> < power_int 2 1024"
    using assms(4) by (intro power_int_strict_increasing) simp_all
  finally have "\<bar>x\<bar> < power_int 2 1024" .
  then have "- power_int 2 1024 < x \<and> x < power_int 2 1024" by (simp add: abs_less_iff)
  with r show ?thesis by (simp add: to_double_def Let_def not_le)
qed


lemma float_le_refl_to_double [simp]: "float_le (to_double x) (to_double x)"
  by (rule to_double_mono) simp

lemma to_double_not_nan [simp]: "to_double x \<noteq> NaN"
  using to_double_cases [of x] by auto

lemma float_le_inf [simp]:
  "float_le NegInf y \<longleftrightarrow> y \<noteq> NaN"
  "float_le x PosInf \<longleftrightarrow> x \<noteq> NaN"
  by (cases y; simp) (cases x; simp)

lemma float_sub_antitone:
  assumes "float_le a b"
  shows "float_le (float_sub (Finite 1) b) (float_sub (Finite 1) a)"
proof (cases a)
  case (Finite x)
  note a = this
  show ?thesis
  proof (cases b)
    case (Finite y)
    with a assms have "1 - y \<le> 1 - x" by simp
    then show ?thesis using a Finite by (simp add: to_double_mono)
  qed (use a assms in simp_all)
next
  case PosInf
  with assms show ?thesis by (cases b) simp_all
next
  case NegInf
  with assms show ?thesis by (cases b) simp_all
next
  case NaN
  with assms show ?thesis by simp
qed

lemma py_round4_mono:
  assumes "float_le a b"
  shows "float_le (py_round4 a) (py_round4 b)"
proof (cases a)
  case (Finite x)
  note a = this
  show ?thesis
  proof (cases b)
    case (Finite y)
    with a assms have "x * 10000 \<le> y * 10000" by simp
    then have "round_half_even (x * 10000) \<le> round_half_even (y * 10000)"
      by (rule round_half_even_mono)
    then have "(of_int (round_half_even (x * 10000)) :: rat) / 10000 \<le>
                 of_int (round_half_even (y * 10000)) / 10000"
      by (simp add: divide_right_mono)
    then show ?thesis using a Finite by (simp add: to_double_mono)
  qed (use a assms in simp_all)
next
  case PosInf
  with assms show ?thesis by (cases b) simp_all
next
  case NegInf
  with assms show ?thesis by (cases b) simp_all
next
  case NaN
  with assms show ?thesis by simp
qed


lemma round_half_even_near:
  assumes "of_int n - 1 / 2 < y" and "y < of_int n + 1 / 2"
  shows "round_half_even y = n"
proof (cases "of_int n \<le> y")
  case True
  with assms(2) have "\<lfloor>y\<rfloor> = n" by (intro floor_unique) simp_all
  with assms(2) show ?thesis by (simp add: round_half_even_def Let_def)
next
  case False
  with assms(1) have "\<lfloor>y\<rfloor> = n - 1" by (intro floor_unique) simp_all
  with assms(1) show ?thesis by (simp add: round_half_even_def Let_def)
qed

lemma round_half_even_tie:
  assumes "y = of_int n + 1 / 2"
  shows "round_half_even y = (if even n then n else n + 1)"
proof -
  have "\<lfloor>y\<rfloor> = n" unfolding assms by (intro floor_unique) simp_all
  then show ?thesis by (simp add: round_half_even_def Let_def assms)
qed

lemma round_to_double_normal:
  assumes "power_int 2 e \<le> x" and "x < power_int 2 (e + 1)" and "- 1022 \<le> e"
  shows "round_to_double x =
           of_int (round_half_even (x / power_int 2 (e - 52))) * power_int 2 (e - 52)"
proof -
  have pos: "0 < x" using assms(1) by (rule less_le_trans [rotated]) simp
  then have "binary_exponent \<bar>x\<bar> = e"
    using assms(1,2) by (intro binary_exponent_unique) simp_all
  with pos assms(3) show ?thesis
    using round_to_double_eq [of x] by simp
qed

text \<open>
  The double next to \<open>0.49945\<close>: the subtraction from one is a tie between two doubles
  and goes to the even one, above the exact difference, and the score is \<open>0.5006\<close>,
  the double next to it.
\<close>

lemma float_sub_rounds:
  "float_sub (Finite 1) (Finite (8997291335560777 / 18014398509481984)) =
     Finite (1127138396740151 / 2251799813685248)"
proof -
  let ?x = "1 - 8997291335560777 / 18014398509481984 :: rat"
  have "round_half_even (?x / power_int 2 (- 1 - 52)) =
          (if even (4508553586960603 :: int) then 4508553586960603 else 4508553586960603 + 1)"
    by (rule round_half_even_tie) simp
  then have n: "round_half_even (?x / power_int 2 (- 1 - 52)) = 4508553586960604" by simp
  have "round_to_double ?x =
          of_int (round_half_even (?x / power_int 2 (- 1 - 52))) * power_int 2 (- 1 - 52)"
    by (rule round_to_double_normal) simp_all
  then have "round_to_double ?x = 1127138396740151 / 2251799813685248"
    unfolding n by simp
  then show ?thesis by (simp add: to_double_def)
qed

lemma py_round4_after_float_sub:
  "py_round4 (float_sub (Finite 1) (Finite (8997291335560777 / 18014398509481984))) =
     Finite (4509003946923341 / 9007199254740992)"
proof -
  let ?y = "5006 / 10000 :: rat"
  have r: "round_half_even (1127138396740151 / 2251799813685248 * 10000 :: rat) = 5006"
    by (rule round_half_even_near) simp_all
  have n: "round_half_even (?y / power_int 2 (- 1 - 52)) = 4509003946923341"
    by (rule round_half_even_near) simp_all
  have "round_to_double ?y =
          of_int (round_half_even (?y / power_int 2 (- 1 - 52))) * power_int 2 (- 1 - 52)"
    by (rule round_to_double_normal) simp_all
  then have "round_to_double ?y = 4509003946923341 / 9007199254740992"
    unfolding n by simp
  then have "to_double ?y = Finite (4509003946923341 / 9007199254740992)"
    by (simp add: to_double_def)
  with r show ?thesis unfolding float_sub_rounds by simp
qed

text \<open>Evaluation of the subtraction and of the rounding on given numbers.\<close>

lemma float_sub_dyadic:
  assumes "a - b = of_int m * power_int 2 k" and "\<bar>m\<bar> < 2 ^ 53" and "- 1074 \<le> k" and "k \<le> 970"
  shows "float_sub (Finite a) (Finite b) = Finite (a - b)"
  using to_double_dyadic [OF assms] by simp

lemma py_round4_near:
  assumes "of_int n - 1 / 2 < x * 10000" and "x * 10000 < of_int n + 1 / 2"
    and "to_double (of_int n / 10000) = Finite y"
  shows "py_round4 (Finite x) = Finite y"
  using round_half_even_near [OF assms(1,2)] assms(3) by simp

lemma example_differences:
  "float_sub (Finite 1) (Finite (1 / 4)) = Finite (3 / 4)"
  "float_sub (Finite 1) (Finite (1 / 2)) = Finite (1 / 2)"
  "float_sub (Finite 1) (Finite (3 / 4)) = Finite (1 / 4)"
  "float_sub (Finite 1) (Finite (3 / 2)) = Finite (- (1 / 2))"
  "float_sub (Finite 1) (Finite (32769 / 65536)) = Finite (32767 / 65536)"
  "float_sub (Finite 1) (Finite (65537 / 131072)) = Finite (65535 / 131072)"
  using float_sub_dyadic [of 1 "1 / 4" 3 "- 2"] float_sub_dyadic [of 1 "1 / 2" 1 "- 1"]
    float_sub_dyadic [of 1 "3 / 4" 1 "- 2"] float_sub_dyadic [of 1 "3 / 2" "- 1" "- 1"]
    float_sub_dyadic [of 1 "32769 / 65536" 32767 "- 16"]
    float_sub_dyadic [of 1 "65537 / 131072" 65535 "- 17"]
  by simp_all

lemma example_doubles:
  "to_double (3 / 4) = Finite (3 / 4)"
  "to_double (1 / 2) = Finite (1 / 2)"
  "to_double (1 / 4) = Finite (1 / 4)"
  "to_double (- (1 / 2)) = Finite (- (1 / 2))"
  "to_double (5 / 2) = Finite (5 / 2)"
  using to_double_dyadic [of "3 / 4" 3 "- 2"] to_double_dyadic [of "1 / 2" 1 "- 1"]
    to_double_dyadic [of "1 / 4" 1 "- 2"] to_double_dyadic [of "- (1 / 2)" "- 1" "- 1"]
    to_double_dyadic [of "5 / 2" 5 "- 1"]
  by simp_all

lemma example_roundings:
  "py_round4 (Finite (3 / 4)) = Finite (3 / 4)"
  "py_round4 (Finite (1 / 2)) = Finite (1 / 2)"
  "py_round4 (Finite (1 / 4)) = Finite (1 / 4)"
  "py_round4 (Finite (- (1 / 2))) = Finite (- (1 / 2))"
  "py_round4 (Finite (5 / 2)) = Finite (5 / 2)"
  "py_round4 (Finite (32767 / 65536)) = Finite (1 / 2)"
  "py_round4 (Finite (65535 / 131072)) = Finite (1 / 2)"
  using py_round4_near [of 7500 "3 / 4" "3 / 4"] py_round4_near [of 5000 "1 / 2" "1 / 2"]
    py_round4_near [of 2500 "1 / 4" "1 / 4"] py_round4_near [of "- 5000" "- (1 / 2)" "- (1 / 2)"]
    py_round4_near [of 25000 "5 / 2" "5 / 2"] py_round4_near [of 5000 "32767 / 65536" "1 / 2"]
    py_round4_near [of 5000 "65535 / 131072" "1 / 2"]
  by (simp_all add: example_doubles)

section \<open>Scores: the results of a search\<close>

lemma score_with_score [simp]: "score (with_score s d) = s"
  by (simp add: with_score_def chunk_doc.extend_def)


lemma collect_scored_run:
  "\<forall>i \<in> set idxs. i < length ds \<and> i < length docs \<Longrightarrow>
     collect_scored ds (Some docs) idxs =
       Inr (map (\<lambda>i. with_score (py_round4 (float_sub (Finite 1) (ds ! i))) (docs ! i)) idxs)"
  by (induction idxs) simp_all

lemma collect_scored_scores:
  "collect_scored ds data idxs = Inr out \<Longrightarrow>
     map score out = map (\<lambda>i. py_round4 (float_sub (Finite 1) (ds ! i))) idxs"
proof (induction idxs arbitrary: out)
  case Nil
  then show ?case by simp
next
  case (Cons i idxs)
  then show ?case
    by (auto split: if_splits option.splits sum.splits)
qed



lemma matches_scores:
  "map score (map (\<lambda>(doc, s). with_score (py_round4 s) doc) matches) =
     map (\<lambda>p. py_round4 (snd p)) matches"
  by (induction matches) auto

lemma py_slice_to_prefix: "\<exists>m. py_slice_to k xs = take m xs"
  by (auto simp: py_slice_to_def)

section \<open>Scores: order of the results\<close>

lemma non_increasing_map_antimono:
  assumes "sorted_wrt float_le (map f xs)" and "\<And>a b. float_le a b \<Longrightarrow> float_le (g b) (g a)"
  shows "non_increasing (map (\<lambda>x. g (f x)) xs)"
  using assms unfolding non_increasing_def sorted_wrt_map
  by (induction xs) auto

lemma non_increasing_map_mono:
  assumes "non_increasing (map f xs)" and "\<And>a b. float_le a b \<Longrightarrow> float_le (g a) (g b)"
  shows "non_increasing (map (\<lambda>x. g (f x)) xs)"
  using assms unfolding non_increasing_def sorted_wrt_map
  by (induction xs) auto

lemma similarity_antitone:
  "float_le a b \<Longrightarrow>
     float_le (py_round4 (float_sub (Finite 1) b)) (py_round4 (float_sub (Finite 1) a))"
  by (intro py_round4_mono float_sub_antitone)

lemma ranked_scores_non_increasing:
  assumes "sorted_wrt float_le (map (\<lambda>i. ds ! i) (argsort ds))"
    and "collect_scored ds data (py_slice_to top_k (argsort ds)) = Inr out"
  shows "non_increasing (map score out)"
proof -
  obtain m where m: "py_slice_to top_k (argsort ds) = take m (argsort ds)"
    using py_slice_to_prefix by blast
  have "sorted_wrt float_le (take m (map (\<lambda>i. ds ! i) (argsort ds)))"
    using assms(1) by (rule sorted_wrt_take)
  then have "sorted_wrt float_le (map (\<lambda>i. ds ! i) (take m (argsort ds)))"
    by (simp add: take_map)
  then have "non_increasing
               (map (\<lambda>i. py_round4 (float_sub (Finite 1) (ds ! i))) (take m (argsort ds)))"
    by (rule non_increasing_map_antimono) (rule similarity_antitone)
  with collect_scored_scores [OF assms(2)] m show ?thesis by simp
qed

lemma tfidf_scores_non_increasing:
  assumes "tfidf_index eng = Some index"
    and "sorted_wrt float_le (map (\<lambda>i. cdist query index ! i) (argsort (cdist query index)))"
    and "tfidf_search cdist argsort eng query top_k = Inr out"
  shows "non_increasing (map score out)"
  using assms
  by (auto simp: tfidf_search_def Let_def split: option.splits
      intro: ranked_scores_non_increasing)

lemma bm25_scores_non_increasing:
  assumes "bm25_data eng = Some data"
    and "non_increasing (map snd (retrieve query data top_k))"
    and "bm25_search retrieve eng query top_k = Inr out"
  shows "non_increasing (map score out)"
proof -
  from assms(1,3) have "map score out = map (\<lambda>p. py_round4 (snd p)) (retrieve query data top_k)"
    by (auto simp: bm25_search_def matches_scores)
  moreover have "non_increasing (map (\<lambda>p. py_round4 (snd p)) (retrieve query data top_k))"
    using assms(2) by (rule non_increasing_map_mono) (rule py_round4_mono)
  ultimately show ?thesis by simp
qed

lemma dense_scores_non_increasing:
  assumes "dense_index eng = Some index"
    and "batch_embed pc [query] ''query'' 25 st = (Inr (q # qs), st1)"
    and "sorted_wrt float_le (map (\<lambda>i. cdist q index ! i) (argsort (cdist q index)))"
    and "dense_search pc cdist argsort eng query top_k st = (Inr out, st')"
  shows "non_increasing (map score out)"
  using assms
  by (auto simp: dense_search_def Let_def intro: ranked_scores_non_increasing)

lemma vs_scores_non_increasing:
  assumes "vs_index eng = Some index"
    and "batch_embed pc [query] ''query'' 25 st = (Inr (q # qs), st1)"
    and "non_increasing (map snd (vs_query index q top_k filters))"
    and "vs_search pc vs_query eng query top_k filters st = (Inr out, st')"
  shows "non_increasing (map score out)"
proof -
  from assms(1,2,4)
  have "map score out = map (\<lambda>p. py_round4 (snd p)) (vs_query index q top_k filters)"
    by (auto simp: vs_search_def matches_scores)
  moreover have "non_increasing (map (\<lambda>p. py_round4 (snd p)) (vs_query index q top_k filters))"
    using assms(3) by (rule non_increasing_map_mono) (rule py_round4_mono)
  ultimately show ?thesis by simp
qed

text \<open>The example engines, run on a ranking that is given.\<close>

lemma fitted_tfidf_run:
  assumes "argsort ds = order" and "\<forall>i \<in> set (py_slice_to top_k order). i < length ds \<and> i < 3"
  shows "tfidf_search (fixed_cdist ds) argsort fitted_tfidf query top_k =
           Inr (map (\<lambda>i. with_score (py_round4 (float_sub (Finite 1) (ds ! i))) (example_corpus ! i))
                  (py_slice_to top_k order))"
proof -
  have "length example_corpus = 3" by (simp add: example_corpus_def)
  with assms(2)
  have "\<forall>i \<in> set (py_slice_to top_k order). i < length ds \<and> i < length example_corpus"
    by simp
  from collect_scored_run [OF this] assms(1) show ?thesis
    by (simp add: tfidf_search_def fitted_tfidf_def tfidf_fit_def fixed_cdist_def)
qed

lemma fitted_dense_run:
  assumes "argsort ds = order" and "\<forall>i \<in> set (py_slice_to top_k order). i < length ds \<and> i < 3"
  shows "dense_search echo_provider (fixed_cdist ds) argsort fitted_dense query top_k start =
           (Inr (map (\<lambda>i. with_score (py_round4 (float_sub (Finite 1) (ds ! i)))
                            (example_corpus ! i))
                   (py_slice_to top_k order)),
            \<lparr>calls = 1, trace = [Embed [query], Sleep 500]\<rparr>)"
proof -
  have "length example_corpus = 3" by (simp add: example_corpus_def)
  with assms(2)
  have "\<forall>i \<in> set (py_slice_to top_k order). i < length ds \<and> i < length example_corpus"
    by simp
  from collect_scored_run [OF this] assms(1) show ?thesis
    by (simp add: dense_search_def fitted_dense_def fixed_cdist_def batch_embed_query_echo
        start_def)
qed

lemma fitted_bm25_run:
  "bm25_search (fixed_retrieve matches) fitted_bm25 query top_k =
     Inr (map (\<lambda>(doc, s). with_score (py_round4 s) doc) matches)"
  by (simp add: bm25_search_def fitted_bm25_def bm25_fit_def fixed_retrieve_def)

lemma loaded_vs_run:
  "vs_search echo_provider (fixed_vs_query matches) loaded_vs query top_k None start =
     (Inr (map (\<lambda>(doc, s). with_score (py_round4 s) doc) matches),
      \<lparr>calls = 1, trace = [Embed [query], Sleep 500]\<rparr>)"
  by (simp add: vs_search_def loaded_vs_def vs_load_def vs_init_def fixed_vs_query_def
      batch_embed_query_echo start_def)

lemma example_orders:
  "stable_argsort [Finite (32769 / 65536), Finite (65537 / 131072), Finite (3 / 4)] = [1, 0, 2]"
  "stable_argsort [Finite (1 / 2), Finite (1 / 4), Finite (1 / 4)] = [1, 2, 0]"
  "stable_argsort [Finite (3 / 2), Finite (1 / 4), Finite (1 / 2)] = [1, 2, 0]"
  "stable_argsort [Finite (1 / 4), NaN, Finite (3 / 2)] = [0, 2, 1]"
  by code_simp+

text \<open>
  C8.  The claim: the results of every backend are ordered by non-increasing score, and
  results of equal score keep their corpus order.  The second half fails: the TF-IDF
  and the dense backend order by the unrounded distance, and two distances that differ
  round to one score.  With the distances \<open>0.5000153\<close> (\<open>1/2 + 2 ^ (- 16)\<close>),
  \<open>0.5000076\<close> (\<open>1/2 + 2 ^ (- 17)\<close>) and \<open>0.75\<close> of the chunks \<open>A, B, C\<close> the search
  returns \<open>B\<close> before \<open>A\<close>, both with score \<open>0.5\<close>.
\<close>

theorem equal_scores_out_of_corpus_order:
  "tfidf_search
     (fixed_cdist [Finite (32769 / 65536), Finite (65537 / 131072), Finite (3 / 4)])
     stable_argsort fitted_tfidf ''q'' 2 =
     Inr [with_score (Finite (1 / 2)) (example_chunk ''B'' 1),
          with_score (Finite (1 / 2)) (example_chunk ''A'' 0)] \<and>
   tfidf_data fitted_tfidf =
     Some [example_chunk ''A'' 0, example_chunk ''B'' 1, example_chunk ''C'' 2]"
proof -
  let ?ds = "[Finite (32769 / 65536), Finite (65537 / 131072), Finite (3 / 4)]"
  have "tfidf_search (fixed_cdist ?ds) stable_argsort fitted_tfidf ''q'' 2 =
          Inr (map (\<lambda>i. with_score (py_round4 (float_sub (Finite 1) (?ds ! i)))
                           (example_corpus ! i))
                 (py_slice_to 2 [1, 0, 2]))"
    by (rule fitted_tfidf_run) (simp_all add: example_orders py_slice_to_def)
  then show ?thesis
    by (simp del: float_sub.simps py_round4.simps
        add: py_slice_to_def example_corpus_def example_differences example_roundings
          fitted_tfidf_def tfidf_fit_def)
qed

text \<open>
  C8, amended.  The scores of the results never increase along the result list,
  provided the external ranking is in order: for the TF-IDF and the dense backend,
  \<open>argsort\<close> lists the indices by ascending distance; for the BM25 and the
  vector-store backend, the library or the service returns its matches by
  non-increasing score.  Nothing is said about the order of results of equal score.
\<close>

theorem search_scores_non_increasing:
  "(tfidf_index eng1 = Some index1 \<and>
    sorted_wrt float_le (map (\<lambda>i. cdist1 query index1 ! i) (argsort (cdist1 query index1))) \<and>
    tfidf_search cdist1 argsort eng1 query top_k = Inr out1
      \<longrightarrow> non_increasing (map score out1)) \<and>
   (bm25_data eng2 = Some data \<and>
    non_increasing (map snd (retrieve query data top_k)) \<and>
    bm25_search retrieve eng2 query top_k = Inr out2
      \<longrightarrow> non_increasing (map score out2)) \<and>
   (dense_index eng3 = Some index3 \<and>
    batch_embed pc [query] ''query'' 25 st = (Inr (q # qs), st1) \<and>
    sorted_wrt float_le (map (\<lambda>i. cdist3 q index3 ! i) (argsort (cdist3 q index3))) \<and>
    dense_search pc cdist3 argsort eng3 query top_k st = (Inr out3, st3)
      \<longrightarrow> non_increasing (map score out3)) \<and>
   (vs_index eng4 = Some index4 \<and>
    batch_embed pc [query] ''query'' 25 st = (Inr (q # qs), st1) \<and>
    non_increasing (map snd (vs_query index4 q top_k filters)) \<and>
    vs_search pc vs_query eng4 query top_k filters st = (Inr out4, st4)
      \<longrightarrow> non_increasing (map score out4))"
  using tfidf_scores_non_increasing [of eng1 index1 cdist1 query argsort top_k out1]
    bm25_scores_non_increasing [of eng2 data retrieve query top_k out2]
    dense_scores_non_increasing [of eng3 index3 pc query st q qs st1 cdist3 argsort top_k out3 st3]
    vs_scores_non_increasing [of eng4 index4 pc query st q qs st1 vs_query top_k filters out4 st4]
  by blast

theorem search_scores_non_increasing_witness:
  "tfidf_search (fixed_cdist [Finite (1 / 2), Finite (1 / 4), Finite (1 / 4)]) stable_argsort
     fitted_tfidf ''q'' 2 =
     Inr [with_score (Finite (3 / 4)) (example_chunk ''B'' 1),
          with_score (Finite (3 / 4)) (example_chunk ''C'' 2)] \<and>
   non_increasing
     (map score [with_score (Finite (3 / 4)) (example_chunk ''B'' 1),
                 with_score (Finite (3 / 4)) (example_chunk ''C'' 2)]) \<and>
   bm25_search
     (fixed_retrieve [(example_chunk ''B'' 1, Finite (5 / 2)), (example_chunk ''A'' 0, Finite (1 / 4))])
     fitted_bm25 ''q'' 2 =
     Inr [with_score (Finite (5 / 2)) (example_chunk ''B'' 1),
          with_score (Finite (1 / 4)) (example_chunk ''A'' 0)] \<and>
   non_increasing
     (map score [with_score (Finite (5 / 2)) (example_chunk ''B'' 1),
                 with_score (Finite (1 / 4)) (example_chunk ''A'' 0)]) \<and>
   dense_search echo_provider (fixed_cdist [Finite (3 / 2), Finite (1 / 4), Finite (1 / 2)])
     stable_argsort fitted_dense ''q'' 2 start =
     (Inr [with_score (Finite (3 / 4)) (example_chunk ''B'' 1),
           with_score (Finite (1 / 2)) (example_chunk ''C'' 2)],
      \<lparr>calls = 1, trace = [Embed [''q''], Sleep 500]\<rparr>) \<and>
   non_increasing
     (map score [with_score (Finite (3 / 4)) (example_chunk ''B'' 1),
                 with_score (Finite (1 / 2)) (example_chunk ''C'' 2)]) \<and>
   vs_search echo_provider
     (fixed_vs_query [(example_chunk ''B'' 1, Finite (3 / 4)), (example_chunk ''A'' 0, Finite (1 / 4))])
     loaded_vs ''q'' 2 None start =
     (Inr [with_score (Finite (3 / 4)) (example_chunk ''B'' 1),
           with_score (Finite (1 / 4)) (example_chunk ''A'' 0)],
      \<lparr>calls = 1, trace = [Embed [''q''], Sleep 500]\<rparr>) \<and>
   non_increasing
     (map score [with_score (Finite (3 / 4)) (example_chunk ''B'' 1),
                 with_score (Finite (1 / 4)) (example_chunk ''A'' 0)])"
proof -
  let ?ds1 = "[Finite (1 / 2), Finite (1 / 4), Finite (1 / 4)]"
  let ?out1 = "[with_score (Finite (3 / 4)) (example_chunk ''B'' 1),
                with_score (Finite (3 / 4)) (example_chunk ''C'' 2)]"
  let ?ms2 = "[(example_chunk ''B'' 1, Finite (5 / 2)), (example_chunk ''A'' 0, Finite (1 / 4))]"
  let ?out2 = "[with_score (Finite (5 / 2)) (example_chunk ''B'' 1),
                with_score (Finite (1 / 4)) (example_chunk ''A'' 0)]"
  let ?ds3 = "[Finite (3 / 2), Finite (1 / 4), Finite (1 / 2)]"
  let ?out3 = "[with_score (Finite (3 / 4)) (example_chunk ''B'' 1),
                with_score (Finite (1 / 2)) (example_chunk ''C'' 2)]"
  let ?ms4 = "[(example_chunk ''B'' 1, Finite (3 / 4)), (example_chunk ''A'' 0, Finite (1 / 4))]"
  let ?out4 = "[with_score (Finite (3 / 4)) (example_chunk ''B'' 1),
                with_score (Finite (1 / 4)) (example_chunk ''A'' 0)]"
  let ?st = "\<lparr>calls = 1, trace = [Embed [''q''], Sleep 500]\<rparr>"
  have i1: "tfidf_index fitted_tfidf = Some ()"
    by (simp add: fitted_tfidf_def tfidf_fit_def)
  have o1: "sorted_wrt float_le
              (map (\<lambda>i. fixed_cdist ?ds1 ''q'' () ! i) (stable_argsort (fixed_cdist ?ds1 ''q'' ())))"
    by (simp add: fixed_cdist_def example_orders)
  have "tfidf_search (fixed_cdist ?ds1) stable_argsort fitted_tfidf ''q'' 2 =
          Inr (map (\<lambda>i. with_score (py_round4 (float_sub (Finite 1) (?ds1 ! i)))
                           (example_corpus ! i))
                 (py_slice_to 2 [1, 2, 0]))"
    by (rule fitted_tfidf_run) (simp_all add: example_orders py_slice_to_def)
  then have s1: "tfidf_search (fixed_cdist ?ds1) stable_argsort fitted_tfidf ''q'' 2 = Inr ?out1"
    by (simp del: float_sub.simps py_round4.simps
        add: py_slice_to_def example_corpus_def example_differences example_roundings)
  have i2: "bm25_data fitted_bm25 = Some example_corpus"
    by (simp add: fitted_bm25_def bm25_fit_def)
  have o2: "non_increasing (map snd (fixed_retrieve ?ms2 ''q'' example_corpus 2))"
    by (simp add: fixed_retrieve_def non_increasing_def)
  have s2: "bm25_search (fixed_retrieve ?ms2) fitted_bm25 ''q'' 2 = Inr ?out2"
    by (simp del: py_round4.simps add: fitted_bm25_run example_roundings)
  have e: "batch_embed echo_provider [''q''] ''query'' 25 start = (Inr [''q''], ?st)"
    by (simp add: batch_embed_query_echo start_def)
  have i3: "dense_index fitted_dense = Some (map c_text example_corpus)"
    by (simp add: fitted_dense_def)
  have o3: "sorted_wrt float_le
              (map (\<lambda>i. fixed_cdist ?ds3 ''q'' (map c_text example_corpus) ! i)
                 (stable_argsort (fixed_cdist ?ds3 ''q'' (map c_text example_corpus))))"
    by (simp add: fixed_cdist_def example_orders)
  have "dense_search echo_provider (fixed_cdist ?ds3) stable_argsort fitted_dense ''q'' 2 start =
          (Inr (map (\<lambda>i. with_score (py_round4 (float_sub (Finite 1) (?ds3 ! i)))
                            (example_corpus ! i))
                  (py_slice_to 2 [1, 2, 0])), ?st)"
    by (rule fitted_dense_run) (simp_all add: example_orders py_slice_to_def)
  then have s3: "dense_search echo_provider (fixed_cdist ?ds3) stable_argsort fitted_dense ''q'' 2
                   start = (Inr ?out3, ?st)"
    by (simp del: float_sub.simps py_round4.simps
        add: py_slice_to_def example_corpus_def example_differences example_roundings)
  have i4: "vs_index loaded_vs = Some ()"
    by (simp add: loaded_vs_def vs_load_def)
  have o4: "non_increasing (map snd (fixed_vs_query ?ms4 () ''q'' 2 None))"
    by (simp add: fixed_vs_query_def non_increasing_def)
  have s4: "vs_search echo_provider (fixed_vs_query ?ms4) loaded_vs ''q'' 2 None start =
              (Inr ?out4, ?st)"
    by (simp del: py_round4.simps add: loaded_vs_run example_roundings)
  note inst = search_scores_non_increasing
    [where ?eng1.0 = fitted_tfidf and ?index1.0 = "()" and ?cdist1.0 = "fixed_cdist ?ds1"
       and argsort = stable_argsort and query = "''q''" and top_k = 2 and ?out1.0 = ?out1
       and ?eng2.0 = fitted_bm25 and data = example_corpus and retrieve = "fixed_retrieve ?ms2"
       and ?out2.0 = ?out2
       and ?eng3.0 = fitted_dense and ?index3.0 = "map c_text example_corpus"
       and pc = echo_provider and st = start and q = "''q''" and qs = "[]" and ?st1.0 = ?st
       and ?cdist3.0 = "fixed_cdist ?ds3" and ?out3.0 = ?out3 and ?st3.0 = ?st
       and ?eng4.0 = loaded_vs and ?index4.0 = "()" and vs_query = "fixed_vs_query ?ms4"
       and filters = None and ?out4.0 = ?out4 and ?st4.0 = ?st]
  from inst i1 o1 s1 have c1: "non_increasing (map score ?out1)" by blast
  from inst i2 o2 s2 have c2: "non_increasing (map score ?out2)" by blast
  from inst i3 e o3 s3 have c3: "non_increasing (map score ?out3)" by blast
  from inst i4 e o4 s4 have c4: "non_increasing (map score ?out4)" by blast
  from s1 c1 s2 c2 s3 c3 s4 c4 show ?thesis by (intro conjI)
qed

section \<open>Scores: range\<close>







text \<open>
  A distance that is NaN gives a score that is NaN, which is in no order with \<open>0\<close> and
  \<open>1\<close>.
\<close>

lemma nan_distance_gives_nan_score:
  "py_round4 (float_sub (Finite 1) NaN) = NaN \<and>
   \<not> float_le (Finite 0) NaN \<and> \<not> float_le NaN (Finite 1)"
  by simp




section \<open>The token packer\<close>

lemma group_tokens_simps [simp]:
  "group_tokens tokenize [] = []"
  "group_tokens tokenize (g @ h) = group_tokens tokenize g @ group_tokens tokenize h"
  "group_tokens tokenize [s] = tokenize s"
  by (simp_all add: group_tokens_def)















section \<open>Determinism of chunking\<close>

lemma doc_chunks_ids:
  "map doc_id (doc_chunks ext doc text_of i cs) =
     replicate (length cs) (make_id ext (doc_content doc))"
  "map chunk_id (doc_chunks ext doc text_of i cs) = map (make_id ext) cs"
  "map chunk_number (doc_chunks ext doc text_of i cs) = [i..<i + length cs]"
  by (induction cs arbitrary: i) (simp_all add: upt_rec)

text \<open>
  The order of set iteration is read by the code chunker only: the chunks of notebook,
  PDF and markdown documents do not depend on it.
\<close>

lemma pdf_chunks_loop_set_iteration:
  "pdf_chunks_loop (ext\<lparr>ext_set_iteration := order\<rparr>) chunk_size sections chunks =
     pdf_chunks_loop ext chunk_size sections chunks"
  by (induction sections arbitrary: chunks) simp_all

lemma prose_chunkers_set_iteration:
  "chunk_markdown (ext\<lparr>ext_set_iteration := order\<rparr>) content chunk_size =
     chunk_markdown ext content chunk_size"
  "chunk_notebook (ext\<lparr>ext_set_iteration := order\<rparr>) content chunk_size =
     chunk_notebook ext content chunk_size"
  "chunk_pdf (ext\<lparr>ext_set_iteration := order\<rparr>) content chunk_size =
     chunk_pdf ext content chunk_size"
  by (simp_all add: chunk_markdown_def chunk_notebook_def chunk_pdf_def
      pdf_chunks_loop_set_iteration)

lemma doc_chunks_set_iteration:
  "doc_chunks (ext\<lparr>ext_set_iteration := order\<rparr>) doc text_of i cs =
     doc_chunks ext doc text_of i cs"
  by (induction cs arbitrary: i) (simp_all add: make_id_def)

lemma chunk_dataset_loop_prose:
  assumes "\<forall>doc \<in> set ds. doc_file_type doc \<noteq> ''python''"
  shows "chunk_dataset_loop (ext\<lparr>ext_set_iteration := order\<rparr>) ds chunk_size all_chunks =
           chunk_dataset_loop ext ds chunk_size all_chunks"
  using assms
  by (induction ds arbitrary: all_chunks)
    (simp_all add: prose_chunkers_set_iteration doc_chunks_set_iteration)

text \<open>
  C9.  The claim: chunking the same content again gives the same sequence of
  \<open>(doc_id, chunk_id, chunk_number)\<close>.  For a Python document the text of a chunk
  lists the imports it uses in the order of \<open>list(set(used_imports))\<close>, the iteration
  order of a set of strings, which is not the same in every process.  The module with
  the imports \<open>os\<close> and \<open>sys\<close> and one function that uses both gives a chunk that
  starts with \<open>import os\<close> under one order and with \<open>import sys\<close> under another; the
  \<open>doc_id\<close> and the \<open>chunk_number\<close> agree, the \<open>chunk_id\<close> is the hash of two
  different texts.
\<close>

theorem chunk_id_depends_on_set_order:
  "chunk_dataset (example_externals md5 3) [example_python_doc] 500 =
     Inr [\<lparr>c_file_type = ''python'', c_metadata = [(''source'', ''f.py'')],
           chunk =
             ''import os\<newline>import sys\<newline>\<newline>    def f():\<newline>    os.getcwd()\<newline>    sys.exit(0)'',
           c_text =
             ''import os\<newline>import sys\<newline>\<newline>    def f():\<newline>    os.getcwd()\<newline>    sys.exit(0)'',
           chunk_id =
             md5 ''import os\<newline>import sys\<newline>\<newline>    def f():\<newline>    os.getcwd()\<newline>    sys.exit(0)'',
           doc_id = md5 example_python_source,
           chunk_number = 0\<rparr>] \<and>
   chunk_dataset (example_externals md5 0) [example_python_doc] 500 =
     Inr [\<lparr>c_file_type = ''python'', c_metadata = [(''source'', ''f.py'')],
           chunk =
             ''import sys\<newline>import os\<newline>\<newline>    def f():\<newline>    os.getcwd()\<newline>    sys.exit(0)'',
           c_text =
             ''import sys\<newline>import os\<newline>\<newline>    def f():\<newline>    os.getcwd()\<newline>    sys.exit(0)'',
           chunk_id =
             md5 ''import sys\<newline>import os\<newline>\<newline>    def f():\<newline>    os.getcwd()\<newline>    sys.exit(0)'',
           doc_id = md5 example_python_source,
           chunk_number = 0\<rparr>]"
proof -
  have "chunk_dataset (example_externals md5 3) [example_python_doc] 500 =
     Inr [\<lparr>c_file_type = ''python'', c_metadata = [(''source'', ''f.py'')],
           chunk =
             ''import os\<newline>import sys\<newline>\<newline>    def f():\<newline>    os.getcwd()\<newline>    sys.exit(0)'',
           c_text =
             ''import os\<newline>import sys\<newline>\<newline>    def f():\<newline>    os.getcwd()\<newline>    sys.exit(0)'',
           chunk_id =
             md5 ''import os\<newline>import sys\<newline>\<newline>    def f():\<newline>    os.getcwd()\<newline>    sys.exit(0)'',
           doc_id = md5 example_python_source,
           chunk_number = 0\<rparr>]"
    by code_simp
  moreover have "chunk_dataset (example_externals md5 0) [example_python_doc] 500 =
     Inr [\<lparr>c_file_type = ''python'', c_metadata = [(''source'', ''f.py'')],
           chunk =
             ''import sys\<newline>import os\<newline>\<newline>    def f():\<newline>    os.getcwd()\<newline>    sys.exit(0)'',
           c_text =
             ''import sys\<newline>import os\<newline>\<newline>    def f():\<newline>    os.getcwd()\<newline>    sys.exit(0)'',
           chunk_id =
             md5 ''import sys\<newline>import os\<newline>\<newline>    def f():\<newline>    os.getcwd()\<newline>    sys.exit(0)'',
           doc_id = md5 example_python_source,
           chunk_number = 0\<rparr>]"
    by code_simp
  ultimately show ?thesis by (rule conjI)
qed

end
